theory Spec2Isabelle
  imports Main "HOL-Library.Sublist" "HOL-Library.AList" "HOL-Library.Multiset"
begin

section \<open>Go values used by the storage layer\<close>

text \<open>
  Go strings are byte sequences: \<^typ>\<open>string\<close>. A \<open>time.Time\<close> is an instant on a
  line; \<open>Before\<close> is its strict order. It is modelled as an \<^typ>\<open>int\<close> (a count of
  clock ticks), the zero \<open>time.Time\<close> being \<open>0\<close>. Sizes are \<open>int64\<close> values that are
  only copied, never computed with, in the functions below.
\<close>

type_synonym time = int

text \<open>
  Errors: the sentinel \<open>ErrNotFound\<close> of the storage layer, the two classes that
  \<open>os.IsExist\<close> and \<open>os.IsNotExist\<close> recognise, any other error by its message, and
  \<open>fmt.Errorf(msg + ": %v", err)\<close> as the message with the error it wraps.
\<close>

datatype error = ErrNotFound | ErrExist | ErrNotExist | Err string | Wrapped string error

subsection \<open>The \<open>strings\<close> package\<close>

definition HasPrefix :: "string \<Rightarrow> string \<Rightarrow> bool" where
  "HasPrefix s pre = prefix pre s"

definition HasSuffix :: "string \<Rightarrow> string \<Rightarrow> bool" where
  "HasSuffix s suf = suffix suf s"

definition TrimPrefix :: "string \<Rightarrow> string \<Rightarrow> string" where
  "TrimPrefix s pre = (if HasPrefix s pre then drop (length pre) s else s)"

text \<open>
  \<open>strings.Split(s, "/")\<close> for a one-byte separator: the pieces between the
  separators, in order; always at least one piece (\<open>Split("", "/") = [""]\<close>).
\<close>

fun Split :: "string \<Rightarrow> char \<Rightarrow> string list" where
  "Split [] sep = [[]]"
| "Split (c # cs) sep =
     (if c = sep then [] # Split cs sep
      else (case Split cs sep of
              [] \<Rightarrow> [[c]]
            | p # ps \<Rightarrow> (c # p) # ps))"

section \<open>Remote files\<close>

text \<open>
  \<open>RemoteFile\<close> is an interface with the methods \<open>Name()\<close>, \<open>Size()\<close> and
  \<open>LastModified()\<close>; a value of it is the triple of their results.
\<close>

record RemoteFile =
  rf_Name :: string
  rf_Size :: int
  rf_LastModified :: time

record Backup =
  Name :: string
  Size :: int
  Date :: time

section \<open>The storage backend\<close>

text \<open>
  An archive travels as a sequence of tar entries; \<open>tar_header\<close> tells whether the
  entry's header is a \<open>*tar.Header\<close>. A stream is what one end of a pipe or a remote
  reader yields: the entries, then a clean end (\<open>None\<close>) or an error. The codec of the
  archiver library is not modelled: a reader yields the entries the writer was given.
\<close>

type_synonym bytes = string

record tar_entry =
  entry_name :: string
  entry_body :: bytes
  tar_header :: bool

record stream =
  entries :: "tar_entry list"
  close_error :: "error option"

text \<open>
  \<open>RemoteStorage\<close> is the interface embedded in \<open>BackupDestination\<close>; \<open>'s\<close> is the state
  of the remote side. \<open>Walk\<close> gives the objects it hands to its callback, in order, and
  the error it returns.
\<close>

record 's RemoteStorage =
  Connect :: "'s \<Rightarrow> error option"
  Walk :: "'s \<Rightarrow> string \<Rightarrow> RemoteFile list \<times> error option"
  GetFile :: "'s \<Rightarrow> string \<Rightarrow> error + RemoteFile"
  GetFileReader :: "'s \<Rightarrow> string \<Rightarrow> error + stream"
  PutFile :: "'s \<Rightarrow> string \<Rightarrow> stream \<Rightarrow> 's \<times> error option"
  DeleteFile :: "'s \<Rightarrow> string \<Rightarrow> 's \<times> error option"

record 's BackupDestination =
  storage :: "'s RemoteStorage"
  bd_path :: string
  compressionFormat :: string
  compressionLevel :: int
  disableProgressBar :: bool
  backupsToKeep :: int

section \<open>The backup catalog: \<open>BackupList\<close>\<close>

text \<open>The accumulator \<open>ClickhouseBackup\<close>, local to \<open>BackupList\<close>.\<close>

record ClickhouseBackup =
  Metadata :: bool
  Shadow :: bool
  Tar :: bool
  cb_Size :: int
  cb_Date :: time

text \<open>
  \<open>files\<close> is a Go map from names to accumulators. It is kept as an association list
  with one pair per key, in the order the keys were first stored; reading a key that
  is not there gives the zero struct, as in Go.
\<close>

type_synonym files_map = "(string \<times> ClickhouseBackup) list"

definition zero_backup :: ClickhouseBackup where
  "zero_backup = \<lparr>Metadata = False, Shadow = False, Tar = False, cb_Size = 0, cb_Date = 0\<rparr>"

definition lookup :: "files_map \<Rightarrow> string \<Rightarrow> ClickhouseBackup" where
  "lookup files k = (case map_of files k of None \<Rightarrow> zero_backup | Some b \<Rightarrow> b)"

definition archive_suffix :: "string \<Rightarrow> bool" where
  "archive_suffix p \<longleftrightarrow>
     HasSuffix p ''.tar'' \<or> HasSuffix p ''.tar.lz4'' \<or> HasSuffix p ''.tar.bz2'' \<or>
     HasSuffix p ''.tar.gz'' \<or> HasSuffix p ''.tar.sz'' \<or> HasSuffix p ''.tar.xz''"

text \<open>
  The first statement of the callback: a first segment with an archive suffix stores a
  fresh accumulator, whose \<open>Metadata\<close> and \<open>Shadow\<close> are the zero value.
\<close>

definition tar_branch :: "string \<Rightarrow> RemoteFile \<Rightarrow> files_map \<Rightarrow> files_map" where
  "tar_branch p0 obj files =
     (if archive_suffix p0
      then AList.update p0
             \<lparr>Metadata = False, Shadow = False, Tar = True,
              cb_Size = rf_Size obj, cb_Date = rf_LastModified obj\<rparr> files
      else files)"

text \<open>
  The second statement: with more than one segment the accumulator is rebuilt from the
  stored one; the struct literal names \<open>Metadata\<close>, \<open>Shadow\<close>, \<open>Date\<close> and \<open>Size\<close>, so
  \<open>Tar\<close> is the zero value.
\<close>

definition marker_branch :: "string list \<Rightarrow> files_map \<Rightarrow> files_map" where
  "marker_branch parts files =
     (case parts of
        p0 # p1 # rest \<Rightarrow>
          (let b = lookup files p0 in
           AList.update p0
             \<lparr>Metadata = (Metadata b \<or> p1 = ''metadata''),
              Shadow = (Shadow b \<or> p1 = ''shadow''),
              Tar = False, cb_Size = cb_Size b, cb_Date = cb_Date b\<rparr> files)
      | _ \<Rightarrow> files)"

text \<open>The segments of a key: the path prefix, then one leading slash, are trimmed.\<close>

definition key_parts :: "string \<Rightarrow> string \<Rightarrow> string list" where
  "key_parts path name = Split (TrimPrefix (TrimPrefix name path) ''/'') (CHR ''/'')"

text \<open>The callback that \<open>BackupList\<close> hands to \<open>Walk\<close>.\<close>

definition visit :: "string \<Rightarrow> RemoteFile \<Rightarrow> files_map \<Rightarrow> files_map" where
  "visit path obj files =
     (if HasPrefix (rf_Name obj) path
      then (let parts = key_parts path (rf_Name obj)
            in marker_branch parts (tar_branch (hd parts) obj files))
      else files)"

text \<open>
  \<open>for name, e := range files\<close> appends the entries that pass the test
  \<open>e.Metadata && e.Shadow || e.Tar\<close>.
\<close>

definition is_backup :: "ClickhouseBackup \<Rightarrow> bool" where
  "is_backup e \<longleftrightarrow> Metadata e \<and> Shadow e \<or> Tar e"

definition collect :: "files_map \<Rightarrow> Backup list" where
  "collect fs =
     map (\<lambda>(name, e). \<lparr>Name = name, Size = cb_Size e, Date = cb_Date e\<rparr>)
         (filter (\<lambda>(name, e). is_backup e) fs)"

text \<open>
  \<open>sort.SliceStable\<close> with \<open>less = Date.Before\<close>: a stable sort by date, here the
  stable insertion sort of the list library.
\<close>

definition SliceStable :: "Backup list \<Rightarrow> Backup list" where
  "SliceStable bs = sort_key Date bs"

text \<open>
  Go does not fix the order in which \<open>range\<close> visits a map: \<open>rng\<close> stands for that
  order, a rearrangement of the entries (\<open>range_order\<close>). \<open>catalog\<close> is \<open>BackupList\<close>
  from the objects that \<open>Walk\<close> handed to the callback, when \<open>Walk\<close> returned no error.
\<close>

definition walk_files :: "string \<Rightarrow> RemoteFile list \<Rightarrow> files_map" where
  "walk_files path walked = foldl (\<lambda>fs obj. visit path obj fs) [] walked"

definition catalog :: "(files_map \<Rightarrow> files_map) \<Rightarrow> string \<Rightarrow> RemoteFile list \<Rightarrow> Backup list" where
  "catalog rng path walked = SliceStable (collect (rng (walk_files path walked)))"

definition BackupList ::
  "(files_map \<Rightarrow> files_map) \<Rightarrow> 's BackupDestination \<Rightarrow> 's \<Rightarrow> error + Backup list"
where
  "BackupList rng bd s =
     (case Walk (storage bd) s (bd_path bd) of
        (walked, Some e) \<Rightarrow> Inl e
      | (walked, None) \<Rightarrow> Inr (catalog rng (bd_path bd) walked))"

definition range_order :: "(files_map \<Rightarrow> files_map) \<Rightarrow> bool" where
  "range_order rng \<longleftrightarrow> (\<forall>fs. mset (rng fs) = mset fs)"

definition remote_file :: "string \<Rightarrow> int \<Rightarrow> time \<Rightarrow> RemoteFile" where
  "remote_file n s d = \<lparr>rf_Name = n, rf_Size = s, rf_LastModified = d\<rparr>"

section \<open>Paths: \<open>path.Join\<close>, \<open>filepath.Dir\<close>, \<open>filepath.Base\<close>\<close>

text \<open>
  The Go library's \<open>path.Clean\<close>, by path elements: empty elements and \<open>.\<close> are
  dropped; \<open>..\<close> removes the element before it when that is an ordinary one, is
  dropped at the root of a rooted path, and is kept at the start of a relative one.
  The empty result is \<open>.\<close>. On Unix \<open>filepath\<close> is the same as \<open>path\<close>.
\<close>

fun join_slash :: "string list \<Rightarrow> string" where
  "join_slash [] = []"
| "join_slash [c] = c"
| "join_slash (c # d # cs) = c @ CHR ''/'' # join_slash (d # cs)"

definition clean_step :: "bool \<Rightarrow> string list \<Rightarrow> string \<Rightarrow> string list" where
  "clean_step rooted st c =
     (if c = [] \<or> c = ''.'' then st
      else if c = ''..'' then
        (if st \<noteq> [] \<and> last st \<noteq> ''..'' then butlast st
         else if rooted then st
         else st @ [''..''])
      else st @ [c])"

definition Clean :: "string \<Rightarrow> string" where
  "Clean p =
     (if p = [] then ''.''
      else (let rooted = (hd p = CHR ''/'');
                st = foldl (clean_step rooted) [] (Split p (CHR ''/''))
            in if rooted then CHR ''/'' # join_slash st
               else if st = [] then ''.''
               else join_slash st))"

text \<open>\<open>Join\<close> ignores empty elements and cleans the result; with nothing left it is \<open>""\<close>.\<close>

definition Join :: "string list \<Rightarrow> string" where
  "Join elems =
     (let es = filter (\<lambda>e. e \<noteq> []) elems
      in if es = [] then [] else Clean (join_slash es))"

text \<open>\<open>filepath.Dir\<close>: everything up to the last slash, cleaned.\<close>

definition up_to_last_slash :: "string \<Rightarrow> string" where
  "up_to_last_slash p = rev (dropWhile (\<lambda>c. c \<noteq> CHR ''/'') (rev p))"

definition Dir :: "string \<Rightarrow> string" where
  "Dir p = Clean (up_to_last_slash p)"

text \<open>
  \<open>filepath.Base\<close>: the last element, after trailing slashes are stripped; \<open>.\<close> for
  the empty path and \<open>/\<close> for a path of slashes only.
\<close>

definition Base :: "string \<Rightarrow> string" where
  "Base p =
     (if p = [] then ''.''
      else (let q = rev (dropWhile (\<lambda>c. c = CHR ''/'') (rev p));
                b = rev (takeWhile (\<lambda>c. c \<noteq> CHR ''/'') (rev q))
            in if b = [] then ''/'' else b))"

section \<open>Retention: \<open>RemoveBackup\<close> and \<open>RemoveOldBackups\<close>\<close>

text \<open>
  The callback of \<open>RemoveBackup\<close> appends the name of every walked object that has the
  string prefix \<open>path.Join(bd.path, backupName)\<close>.
\<close>

definition marked :: "string \<Rightarrow> string \<Rightarrow> RemoteFile list \<Rightarrow> string list" where
  "marked path backupName walked =
     map rf_Name (filter (\<lambda>f. HasPrefix (rf_Name f) (Join [path, backupName])) walked)"

text \<open>The loop over \<open>objects\<close>: the first failing \<open>DeleteFile\<close> ends it.\<close>

fun DeleteFiles :: "'s RemoteStorage \<Rightarrow> string list \<Rightarrow> 's \<Rightarrow> 's \<times> error option" where
  "DeleteFiles rs [] s = (s, None)"
| "DeleteFiles rs (key # keys) s =
     (case DeleteFile rs s key of
        (s', Some e) \<Rightarrow> (s', Some e)
      | (s', None) \<Rightarrow> DeleteFiles rs keys s')"

definition RemoveBackup :: "'s BackupDestination \<Rightarrow> string \<Rightarrow> 's \<Rightarrow> 's \<times> error option" where
  "RemoveBackup bd backupName s =
     (case Walk (storage bd) s (bd_path bd) of
        (walked, Some e) \<Rightarrow> (s, Some e)
      | (walked, None) \<Rightarrow> DeleteFiles (storage bd) (marked (bd_path bd) backupName walked) s)"

text \<open>
  Modelled from the spec: \<open>GetBackupsToDelete\<close> is not among the sources. The spec has
  it select "all but the most recent \<open>keep\<close>, by date order".
\<close>

definition GetBackupsToDelete :: "Backup list \<Rightarrow> int \<Rightarrow> Backup list" where
  "GetBackupsToDelete backups keep =
     (if int (length backups) > keep
      then take (length backups - nat keep) (sort_key Date backups)
      else [])"

fun RemoveBackups :: "'s BackupDestination \<Rightarrow> Backup list \<Rightarrow> 's \<Rightarrow> 's \<times> error option" where
  "RemoveBackups bd [] s = (s, None)"
| "RemoveBackups bd (b # bs) s =
     (case RemoveBackup bd (Name b) s of
        (s', Some e) \<Rightarrow> (s', Some e)
      | (s', None) \<Rightarrow> RemoveBackups bd bs s')"

definition RemoveOldBackups ::
  "(files_map \<Rightarrow> files_map) \<Rightarrow> 's BackupDestination \<Rightarrow> int \<Rightarrow> 's \<Rightarrow> 's \<times> error option"
where
  "RemoveOldBackups rng bd keep s =
     (if keep < 1 then (s, None)
      else (case BackupList rng bd s of
              Inl e \<Rightarrow> (s, Some e)
            | Inr backupList \<Rightarrow> RemoveBackups bd (GetBackupsToDelete backupList keep) s))"

section \<open>A storage backend in memory\<close>

text \<open>
  Modelled from the spec: the backends (S3, GCS, ...) are not among the sources. This
  one follows the capability contract of the spec: \<open>walk\<close> enumerates every object whose
  key starts with the prefix; \<open>statFile\<close> fails with \<open>NotFound\<close> on an absent key;
  \<open>putFile\<close> consumes the stream or fails; \<open>deleteFile\<close> fails with \<open>NotFound\<close> if
  the key is absent, else removes it. The state is the list of stored objects with
  their contents, and the time a new object is stamped with.
\<close>

record mem =
  objects :: "(RemoteFile \<times> stream) list"
  clock :: time

definition has_key :: "string \<Rightarrow> RemoteFile \<times> stream \<Rightarrow> bool" where
  "has_key key ob \<longleftrightarrow> rf_Name (fst ob) = key"

definition mem_Walk :: "mem \<Rightarrow> string \<Rightarrow> RemoteFile list \<times> error option" where
  "mem_Walk s p = (filter (\<lambda>f. HasPrefix (rf_Name f) p) (map fst (objects s)), None)"

definition mem_GetFile :: "mem \<Rightarrow> string \<Rightarrow> error + RemoteFile" where
  "mem_GetFile s key =
     (case find (has_key key) (objects s) of None \<Rightarrow> Inl ErrNotFound | Some ob \<Rightarrow> Inr (fst ob))"

definition mem_GetFileReader :: "mem \<Rightarrow> string \<Rightarrow> error + stream" where
  "mem_GetFileReader s key =
     (case find (has_key key) (objects s) of None \<Rightarrow> Inl ErrNotFound | Some ob \<Rightarrow> Inr (snd ob))"

definition mem_PutFile :: "mem \<Rightarrow> string \<Rightarrow> stream \<Rightarrow> mem \<times> error option" where
  "mem_PutFile s key body =
     (case close_error body of
        Some e \<Rightarrow> (s, Some e)
      | None \<Rightarrow>
          (s\<lparr>objects :=
               filter (\<lambda>ob. \<not> has_key key ob) (objects s) @
               [(\<lparr>rf_Name = key,
                  rf_Size = int (length (concat (map entry_body (entries body)))),
                  rf_LastModified = clock s\<rparr>, body)]\<rparr>, None))"

definition mem_DeleteFile :: "mem \<Rightarrow> string \<Rightarrow> mem \<times> error option" where
  "mem_DeleteFile s key =
     (if list_ex (has_key key) (objects s)
      then (s\<lparr>objects := filter (\<lambda>ob. \<not> has_key key ob) (objects s)\<rparr>, None)
      else (s, Some ErrNotFound))"

definition mem_storage :: "mem RemoteStorage" where
  "mem_storage =
     \<lparr>Connect = (\<lambda>s. None), Walk = mem_Walk, GetFile = mem_GetFile,
      GetFileReader = mem_GetFileReader, PutFile = mem_PutFile, DeleteFile = mem_DeleteFile\<rparr>"

definition mem_destination :: "string \<Rightarrow> string \<Rightarrow> mem BackupDestination" where
  "mem_destination p fmt =
     \<lparr>storage = mem_storage, bd_path = p, compressionFormat = fmt, compressionLevel = 1,
      disableProgressBar = True, backupsToKeep = 0\<rparr>"

text \<open>A remote side that holds the given objects, each with an empty body.\<close>

definition holding :: "RemoteFile list \<Rightarrow> mem" where
  "holding fs = \<lparr>objects = map (\<lambda>f. (f, \<lparr>entries = [], close_error = None\<rparr>)) fs, clock = 0\<rparr>"

section \<open>The local machine\<close>

text \<open>
  What \<open>os.Stat\<close> and \<open>filepath.Walk\<close> report of a file: its base name, whether its
  mode is regular, whether it is a directory, its size, and its identity (device and
  inode), which is what \<open>os.SameFile\<close> compares.
\<close>

record FileInfo =
  fi_Name :: string
  fi_regular :: bool
  fi_dir :: bool
  fi_Size :: int
  fi_id :: nat

definition SameFile :: "FileInfo \<Rightarrow> FileInfo \<Rightarrow> bool" where
  "SameFile a b \<longleftrightarrow> fi_id a = fi_id b"

text \<open>
  One call of the function handed to \<open>filepath.Walk\<close>: \<open>Visit path info err\<close>, or
  \<open>Failed path err\<close> when \<open>Lstat\<close> of the path failed and the call is made with a nil
  \<open>info\<close>.
\<close>

datatype walk_item = Visit string FileInfo "error option" | Failed string error

record MetaFile =
  RequiredBackup :: string
  Hardlinks :: "string list"

definition MetaFileName :: string where
  "MetaFileName = ''meta.json''"

text \<open>
  The machine the program runs on, as far as the two transfers use it.
  \<open>getExtension\<close> is a function of the repository that is not among the sources.
  \<open>filepath_Walk\<close> gives the calls \<open>filepath.Walk\<close> makes on a root when no call stops
  it; \<open>os_Open\<close> gives the bytes read from an opened file. \<open>fault op arg\<close> says whether
  the library call \<open>op\<close> on \<open>arg\<close> fails (archive writer, temporary file, directory
  and file creation, copy, close). \<open>MarshalIndent\<close> and \<open>Unmarshal\<close> are those of
  \<open>encoding/json\<close> for \<open>MetaFile\<close>; \<open>Unmarshal\<close> fills the struct it is given.
\<close>

record host =
  getExtension :: "string \<Rightarrow> string"
  filepath_Walk :: "string \<Rightarrow> walk_item list"
  os_Stat :: "string \<Rightarrow> error + FileInfo"
  os_Open :: "string \<Rightarrow> error + bytes"
  fault :: "string \<Rightarrow> string \<Rightarrow> error option"
  MarshalIndent :: "MetaFile \<Rightarrow> error + bytes"
  Unmarshal :: "bytes \<Rightarrow> MetaFile \<Rightarrow> error + MetaFile"

section \<open>Upload: \<open>CompressedStreamUpload\<close>\<close>

text \<open>What a function returns: it panics, or it returns an error or nil.\<close>

datatype outcome = Panicked | Returned "error option"

definition archiveName :: "'s BackupDestination \<Rightarrow> host \<Rightarrow> string \<Rightarrow> string" where
  "archiveName bd h remotePath =
     Join [bd_path bd, remotePath @ ''.'' @ getExtension h (compressionFormat bd)]"

text \<open>
  The first walk adds up sizes. Its function calls \<open>info.Mode()\<close> without looking at
  \<open>err\<close>: a call with a nil \<open>info\<close> panics.
\<close>

fun nil_info :: "walk_item \<Rightarrow> bool" where
  "nil_info (Failed p e) = True"
| "nil_info (Visit p info err) = False"

fun item_size :: "walk_item \<Rightarrow> int" where
  "item_size (Visit p info err) = (if fi_regular info then fi_Size info else 0)"
| "item_size (Failed p e) = 0"

definition totalBytes :: "walk_item list \<Rightarrow> int" where
  "totalBytes items = sum_list (map item_size items)"

text \<open>
  The checks before the pipe is opened: \<open>Some r\<close> when the function ends there with
  \<open>r\<close>, \<open>None\<close> when it goes on to archive and upload. The probe \<open>GetFile\<close> ends the
  function only with an error other than \<open>ErrNotFound\<close>.
\<close>

definition probe :: "'s BackupDestination \<Rightarrow> host \<Rightarrow> string \<Rightarrow> 's \<Rightarrow> error option" where
  "probe bd h remotePath s =
     (case GetFile (storage bd) s (archiveName bd h remotePath) of
        Inl e \<Rightarrow> if e \<noteq> ErrNotFound then Some e else None
      | Inr f \<Rightarrow> None)"

definition upload_checks ::
  "'s BackupDestination \<Rightarrow> host \<Rightarrow> string \<Rightarrow> string \<Rightarrow> string \<Rightarrow> 's \<Rightarrow> outcome option"
where
  "upload_checks bd h localPath remotePath diffFromPath s =
     (case probe bd h remotePath s of
        Some e \<Rightarrow> Some (Returned (Some e))
      | None \<Rightarrow>
          if list_ex nil_info (filepath_Walk h localPath) then Some Panicked
          else if diffFromPath \<noteq> [] then
            (case os_Stat h diffFromPath of
               Inl e \<Rightarrow> Some (Returned (Some e))
             | Inr fi \<Rightarrow>
                 if \<not> fi_dir fi
                 then Some (Returned (Some
                        (Err (CHR 0x27 # diffFromPath @ CHR 0x27 # '' is not a directory''))))
                 else None)
          else None)"

text \<open>
  The function of the second walk on one call: it returns an error (\<open>Stop\<close>), returns
  nil without archiving (\<open>Skip\<close>), records a hardlink (\<open>Link\<close>), or writes an entry
  (\<open>Archive\<close>). The archiver names the entry by \<open>CustomName\<close>, and by the file's own
  name when \<open>CustomName\<close> is empty.
\<close>

datatype file_action = Stop error | Skip | Link string | Archive tar_entry

definition relativePath :: "string \<Rightarrow> string \<Rightarrow> string" where
  "relativePath localPath filePath = TrimPrefix (TrimPrefix filePath localPath) ''/''"

definition same_in_diff :: "host \<Rightarrow> string \<Rightarrow> string \<Rightarrow> FileInfo \<Rightarrow> bool" where
  "same_in_diff h diffFromPath rel info =
     (case os_Stat h (Join [diffFromPath, rel]) of
        Inl e \<Rightarrow> False
      | Inr diffFromFile \<Rightarrow> SameFile info diffFromFile)"

fun upload_file :: "host \<Rightarrow> string \<Rightarrow> string \<Rightarrow> walk_item \<Rightarrow> file_action" where
  "upload_file h localPath diffFromPath (Failed filePath e) = Stop e"
| "upload_file h localPath diffFromPath (Visit filePath info (Some e)) = Stop e"
| "upload_file h localPath diffFromPath (Visit filePath info None) =
     (if \<not> fi_regular info then Skip
      else (case os_Open h filePath of
              Inl e \<Rightarrow> Stop e
            | Inr content \<Rightarrow>
                (let rel = relativePath localPath filePath in
                 if diffFromPath \<noteq> [] \<and> same_in_diff h diffFromPath rel info then Link rel
                 else (let name = (if rel = [] then fi_Name info else rel) in
                       case fault h ''z.Write'' name of
                         Some e \<Rightarrow> Stop e
                       | None \<Rightarrow>
                           Archive \<lparr>entry_name = name, entry_body = content,
                                    tar_header = True\<rparr>))))"

text \<open>
  The second walk: the entries written and the hardlinks recorded so far, and the error
  that ended the walk, if one did.
\<close>

fun walk_upload ::
  "host \<Rightarrow> string \<Rightarrow> string \<Rightarrow> walk_item list \<Rightarrow> tar_entry list \<Rightarrow> string list \<Rightarrow>
   tar_entry list \<times> string list \<times> error option"
where
  "walk_upload h localPath diffFromPath [] ents hardlinks = (ents, hardlinks, None)"
| "walk_upload h localPath diffFromPath (it # its) ents hardlinks =
     (case upload_file h localPath diffFromPath it of
        Stop e \<Rightarrow> (ents, hardlinks, Some e)
      | Skip \<Rightarrow> walk_upload h localPath diffFromPath its ents hardlinks
      | Link rel \<Rightarrow> walk_upload h localPath diffFromPath its ents (hardlinks @ [rel])
      | Archive e \<Rightarrow> walk_upload h localPath diffFromPath its (ents @ [e]) hardlinks)"

text \<open>
  After the walk: with at least one hardlink the \<open>MetaFile\<close> is marshalled, written to a
  temporary file and added to the archive under the name \<open>meta.json\<close>. The result is
  the entry added, if it was, and the error the goroutine ends with.
\<close>

definition metafile_of :: "string \<Rightarrow> string list \<Rightarrow> MetaFile" where
  "metafile_of diffFromPath hardlinks =
     \<lparr>RequiredBackup = Base diffFromPath, Hardlinks = hardlinks\<rparr>"

definition write_meta :: "host \<Rightarrow> string \<Rightarrow> string list \<Rightarrow> tar_entry option \<times> error option" where
  "write_meta h diffFromPath hardlinks =
     (if hardlinks = [] then (None, None)
      else (case MarshalIndent h (metafile_of diffFromPath hardlinks) of
        Inl e \<Rightarrow> (None, Some (Wrapped ''can't marshal json'' e))
      | Inr content \<Rightarrow>
      (case fault h ''ioutil.TempFile'' MetaFileName of
        Some e \<Rightarrow> (None, Some (Wrapped ''can't create meta.info'' e))
      | None \<Rightarrow>
      (case fault h ''tmpfile.Write'' MetaFileName of
        Some e \<Rightarrow> (None, Some (Wrapped ''can't write to meta.info'' e))
      | None \<Rightarrow>
      (case fault h ''os.Stat'' MetaFileName of
        Some e \<Rightarrow> (None, Some (Wrapped ''can't get stat'' e))
      | None \<Rightarrow>
      (case fault h ''os.Open'' MetaFileName of
        Some e \<Rightarrow> (None, Some e)
      | None \<Rightarrow>
      (case fault h ''z.Write'' MetaFileName of
        Some e \<Rightarrow> (None, Some (Wrapped ''can't add mata.json to archive'' e))
      | None \<Rightarrow>
          (Some \<lparr>entry_name = MetaFileName, entry_body = content, tar_header = True\<rparr>,
           None))))))))"

text \<open>
  The goroutine: what it wrote into the pipe, the hardlinks it recorded, the
  \<open>MetaFile\<close> entry it added, and its result \<open>ferr\<close>.
\<close>

record produced =
  p_data :: "tar_entry list"
  p_hardlinks :: "string list"
  p_meta :: "tar_entry option"
  p_ferr :: "error option"

definition written :: "produced \<Rightarrow> tar_entry list" where
  "written pr = p_data pr @ (case p_meta pr of None \<Rightarrow> [] | Some e \<Rightarrow> [e])"

definition producer :: "host \<Rightarrow> string \<Rightarrow> string \<Rightarrow> produced" where
  "producer h localPath diffFromPath =
     (case fault h ''z.Create'' [] of
        Some e \<Rightarrow> \<lparr>p_data = [], p_hardlinks = [], p_meta = None, p_ferr = Some e\<rparr>
      | None \<Rightarrow>
          (case walk_upload h localPath diffFromPath (filepath_Walk h localPath) [] [] of
             (ents, hardlinks, Some e) \<Rightarrow>
               \<lparr>p_data = ents, p_hardlinks = hardlinks, p_meta = None, p_ferr = Some e\<rparr>
           | (ents, hardlinks, None) \<Rightarrow>
               (case write_meta h diffFromPath hardlinks of
                  (m, ferr) \<Rightarrow>
                    \<lparr>p_data = ents, p_hardlinks = hardlinks, p_meta = m, p_ferr = ferr\<rparr>)))"

text \<open>
  \<open>w.CloseWithError(err)\<close> ends the stream the reading end sees: what was written, then
  \<open>err\<close>, or a clean end when \<open>err\<close> is nil.
\<close>

definition CloseWithError :: "tar_entry list \<Rightarrow> error option \<Rightarrow> stream" where
  "CloseWithError ents err = \<lparr>entries = ents, close_error = err\<rparr>"

text \<open>
  The goroutine starts with \<open>defer w.CloseWithError(ferr)\<close>. Go evaluates the arguments
  of a deferred call when the \<open>defer\<close> statement runs; \<open>ferr\<close>, the named result, still
  holds its zero value \<open>nil\<close> then. The body runs next and sets \<open>ferr\<close>; the deferred call
  made on return has the argument evaluated before.
\<close>

definition pipe_body :: "host \<Rightarrow> string \<Rightarrow> string \<Rightarrow> stream" where
  "pipe_body h localPath diffFromPath =
     (let ferr = None;
          deferred_arg = ferr;
          pr = producer h localPath diffFromPath;
          ferr = p_ferr pr
      in CloseWithError (written pr) deferred_arg)"

definition CompressedStreamUpload ::
  "'s BackupDestination \<Rightarrow> host \<Rightarrow> string \<Rightarrow> string \<Rightarrow> string \<Rightarrow> 's \<Rightarrow> 's \<times> outcome"
where
  "CompressedStreamUpload bd h localPath remotePath diffFromPath s =
     (case upload_checks bd h localPath remotePath diffFromPath s of
        Some r \<Rightarrow> (s, r)
      | None \<Rightarrow>
          (case PutFile (storage bd) s (archiveName bd h remotePath)
                  (pipe_body h localPath diffFromPath) of
             (s', Some e) \<Rightarrow> (s', Returned (Some e))
           | (s', None) \<Rightarrow> (s', Returned None)))"

section \<open>Upload of a list of files: \<open>CompressedStreamUpload\<close> of \<open>general.go\<close>\<close>

text \<open>
  The sources hold a second version of the function, in package \<open>new_storage\<close>: it is
  given the files to archive by name, probes \<open>remotePath\<close> itself, and has no
  \<open>diffFromPath\<close>. Its first loop stats every file and returns the first error.
\<close>

fun stat_all :: "host \<Rightarrow> string \<Rightarrow> string list \<Rightarrow> error option" where
  "stat_all h baseLocalPath [] = None"
| "stat_all h baseLocalPath (filename # rest) =
     (case os_Stat h (Join [baseLocalPath, filename]) of
        Inl e \<Rightarrow> Some e
      | Inr finfo \<Rightarrow> stat_all h baseLocalPath rest)"

definition files_checks ::
  "'s BackupDestination \<Rightarrow> host \<Rightarrow> string \<Rightarrow> string list \<Rightarrow> string \<Rightarrow> 's \<Rightarrow> error option"
where
  "files_checks bd h baseLocalPath fnames remotePath s =
     (case GetFile (storage bd) s remotePath of
        Inl e \<Rightarrow> if e \<noteq> ErrNotFound then Some e else stat_all h baseLocalPath fnames
      | Inr f \<Rightarrow> stat_all h baseLocalPath fnames)"

text \<open>The body of the loop of its goroutine, for one file name.\<close>

definition upload_listed :: "host \<Rightarrow> string \<Rightarrow> string \<Rightarrow> file_action" where
  "upload_listed h baseLocalPath f =
     (let filePath = Join [baseLocalPath, f] in
      case os_Stat h filePath of
        Inl e \<Rightarrow> Stop e
      | Inr info \<Rightarrow>
          if \<not> fi_regular info then Skip
          else (case os_Open h filePath of
                  Inl e \<Rightarrow> Stop e
                | Inr content \<Rightarrow>
                    (let name = (if f = [] then fi_Name info else f) in
                     case fault h ''z.Write'' name of
                       Some e \<Rightarrow> Stop e
                     | None \<Rightarrow>
                         Archive \<lparr>entry_name = name, entry_body = content,
                                  tar_header = True\<rparr>)))"

fun archive_listed ::
  "host \<Rightarrow> string \<Rightarrow> string list \<Rightarrow> tar_entry list \<Rightarrow> tar_entry list \<times> error option"
where
  "archive_listed h baseLocalPath [] ents = (ents, None)"
| "archive_listed h baseLocalPath (f # rest) ents =
     (case upload_listed h baseLocalPath f of
        Stop e \<Rightarrow> (ents, Some e)
      | Skip \<Rightarrow> archive_listed h baseLocalPath rest ents
      | Link rel \<Rightarrow> archive_listed h baseLocalPath rest ents
      | Archive e \<Rightarrow> archive_listed h baseLocalPath rest (ents @ [e]))"

definition files_producer :: "host \<Rightarrow> string \<Rightarrow> string list \<Rightarrow> tar_entry list \<times> error option" where
  "files_producer h baseLocalPath fnames =
     (case fault h ''z.Create'' [] of
        Some e \<Rightarrow> ([], Some e)
      | None \<Rightarrow> archive_listed h baseLocalPath fnames [])"

text \<open>
  Its goroutine starts with \<open>defer w.CloseWithError(err)\<close> on its named result \<open>err\<close>:
  the argument is the value \<open>err\<close> has when the \<open>defer\<close> statement runs, as above.
\<close>

definition files_pipe_body :: "host \<Rightarrow> string \<Rightarrow> string list \<Rightarrow> stream" where
  "files_pipe_body h baseLocalPath fnames =
     (let err = None;
          deferred_arg = err;
          pr = files_producer h baseLocalPath fnames;
          err = snd pr
      in CloseWithError (fst pr) deferred_arg)"

definition CompressedStreamUpload_files ::
  "'s BackupDestination \<Rightarrow> host \<Rightarrow> string \<Rightarrow> string list \<Rightarrow> string \<Rightarrow> 's \<Rightarrow> 's \<times> error option"
where
  "CompressedStreamUpload_files bd h baseLocalPath fnames remotePath s =
     (case files_checks bd h baseLocalPath fnames remotePath s of
        Some e \<Rightarrow> (s, Some e)
      | None \<Rightarrow> PutFile (storage bd) s remotePath (files_pipe_body h baseLocalPath fnames))"

section \<open>The files of a walk, and a machine that holds a tree\<close>

text \<open>
  The regular files among the calls of a walk, each with its path and its
  \<open>FileInfo\<close>; whether the upload treats one as a hardlink; the entry it writes for one
  otherwise.
\<close>

fun regular_files :: "walk_item list \<Rightarrow> (string \<times> FileInfo) list" where
  "regular_files [] = []"
| "regular_files (Visit p info err # its) =
     (if fi_regular info then (p, info) # regular_files its else regular_files its)"
| "regular_files (Failed p e # its) = regular_files its"

definition linked :: "host \<Rightarrow> string \<Rightarrow> string \<Rightarrow> string \<times> FileInfo \<Rightarrow> bool" where
  "linked h localPath diffFromPath x \<longleftrightarrow>
     diffFromPath \<noteq> [] \<and> same_in_diff h diffFromPath (relativePath localPath (fst x)) (snd x)"

definition contents :: "host \<Rightarrow> string \<Rightarrow> bytes" where
  "contents h p = (case os_Open h p of Inl e \<Rightarrow> [] | Inr c \<Rightarrow> c)"

definition entry_for :: "host \<Rightarrow> string \<Rightarrow> string \<times> FileInfo \<Rightarrow> tar_entry" where
  "entry_for h localPath x =
     \<lparr>entry_name = (if relativePath localPath (fst x) = [] then fi_Name (snd x)
                     else relativePath localPath (fst x)),
      entry_body = contents h (fst x), tar_header = True\<rparr>"

text \<open>
  Paths that name nothing: a system call on the empty path fails with \<open>ENOENT\<close>, and
  on a path with a NUL byte with \<open>EINVAL\<close>, on every machine.
\<close>

definition no_path :: "string \<Rightarrow> bool" where
  "no_path p \<longleftrightarrow> p = [] \<or> CHR 0x00 \<in> set p"

definition path_error :: "string \<Rightarrow> error" where
  "path_error p = (if p = [] then ErrNotExist else Err ''invalid argument'')"

text \<open>
  A directory tree of directories and regular files: the relative path of every entry
  under the root, in the order of the walk, each a directory or a regular file with
  its bytes.
\<close>

datatype node = Directory | Regular bytes

type_synonym tree = "(string \<times> node) list"

fun files_of :: "tree \<Rightarrow> (string \<times> bytes) list" where
  "files_of [] = []"
| "files_of ((rel, Directory) # t) = files_of t"
| "files_of ((rel, Regular c) # t) = (rel, c) # files_of t"

text \<open>
  \<open>filepath.Walk\<close> calls its function on the root with the path as it was given, and
  names every entry of a directory by \<open>filepath.Join\<close> of the path of the directory
  and the name of the entry: the path of an entry is the root joined with the segments
  of its relative path, one after the other. When \<open>Lstat\<close> of the root fails it makes
  one call, with a nil \<open>info\<close>.
\<close>

definition walk_path :: "string \<Rightarrow> string \<Rightarrow> string" where
  "walk_path root rel = foldl (\<lambda>dir name. Join [dir, name]) root (Split rel (CHR ''/''))"

definition dir_item :: "string \<Rightarrow> walk_item" where
  "dir_item root =
     Visit root \<lparr>fi_Name = Base root, fi_regular = False, fi_dir = True, fi_Size = 0, fi_id = 0\<rparr>
       None"

definition tree_item :: "string \<Rightarrow> nat \<times> string \<times> node \<Rightarrow> walk_item" where
  "tree_item root x =
     (case x of (i, rel, n) \<Rightarrow>
        Visit (walk_path root rel)
          (case n of
             Directory \<Rightarrow>
               \<lparr>fi_Name = Base rel, fi_regular = False, fi_dir = True, fi_Size = 0,
                fi_id = Suc i\<rparr>
           | Regular c \<Rightarrow>
               \<lparr>fi_Name = Base rel, fi_regular = True, fi_dir = False,
                fi_Size = int (length c), fi_id = Suc i\<rparr>)
          None)"

definition tree_walk :: "string \<Rightarrow> tree \<Rightarrow> string \<Rightarrow> walk_item list" where
  "tree_walk root t p =
     (if no_path p then [Failed p (path_error p)]
      else if p = root then dir_item root # map (tree_item root) (enumerate 0 t)
      else [Failed p ErrNotExist])"

text \<open>
  \<open>tree_host ext root t\<close> is a machine that holds the tree under \<open>root\<close> and nothing
  else: \<open>os.Stat\<close> and \<open>os.Open\<close> answer for the paths the walk hands over. No library
  call of the archive writer fails on it. Its \<open>Unmarshal\<close> is right on the two inputs
  it is given below: \<open>{}\<close> leaves the struct as it is, and bytes that are not JSON are
  rejected.
\<close>

fun path_of :: "walk_item \<Rightarrow> string" where
  "path_of (Visit p info err) = p"
| "path_of (Failed p e) = p"

definition tree_stat :: "string \<Rightarrow> tree \<Rightarrow> string \<Rightarrow> error + FileInfo" where
  "tree_stat root t p =
     (case find (\<lambda>it. path_of it = p) (tree_walk root t root) of
        Some (Visit q info err) \<Rightarrow> Inr info
      | Some (Failed q e) \<Rightarrow> Inl e
      | None \<Rightarrow> Inl (if no_path p then path_error p else ErrNotExist))"

definition tree_open :: "string \<Rightarrow> tree \<Rightarrow> string \<Rightarrow> error + bytes" where
  "tree_open root t p =
     (if no_path root then Inl (if no_path p then path_error p else ErrNotExist)
      else (case map_of (map (\<lambda>(rel, c). (walk_path root rel, c)) (files_of t)) p of
              None \<Rightarrow> Inl (if no_path p then path_error p else ErrNotExist)
            | Some c \<Rightarrow> Inr c))"

definition tree_host :: "(string \<Rightarrow> string) \<Rightarrow> string \<Rightarrow> tree \<Rightarrow> host" where
  "tree_host ext root t =
     \<lparr>getExtension = ext,
      filepath_Walk = tree_walk root t,
      os_Stat = tree_stat root t,
      os_Open = tree_open root t,
      fault = (\<lambda>op arg. None),
      MarshalIndent = (\<lambda>m. Inl (Err ''json: not used'')),
      Unmarshal = (\<lambda>b m. if b = ''{}'' then Inr m else Inl (Err ''invalid character''))\<rparr>"

section \<open>Download: \<open>CompressedStreamDownload\<close>\<close>

text \<open>
  The files of the local machine: the bytes under each path that holds a file.
  Directories are not kept: \<open>os.MkdirAll\<close> before an extraction or a link changes no
  file, and its result there is not looked at.
\<close>

type_synonym files = "string \<rightharpoonup> bytes"

definition zero_metafile :: MetaFile where
  "zero_metafile = \<lparr>RequiredBackup = [], Hardlinks = []\<rparr>"

text \<open>
  The loop over the entries that \<open>z.Read\<close> yields. The entry named \<open>meta.json\<close> is
  unmarshalled into \<open>metafile\<close> and not written; every other entry is written to
  \<open>filepath.Join(localPath, header.Name)\<close>. A failing \<open>io.Copy\<close> leaves the file created.
\<close>

fun extract_entries ::
  "host \<Rightarrow> string \<Rightarrow> tar_entry list \<Rightarrow> files \<Rightarrow> MetaFile \<Rightarrow> files \<times> MetaFile \<times> error option"
where
  "extract_entries h localPath [] fs metafile = (fs, metafile, None)"
| "extract_entries h localPath (e # es) fs metafile =
     (if \<not> tar_header e then (fs, metafile, Some (Err ''expected header to be *tar.Header''))
      else if entry_name e = MetaFileName then
        (case fault h ''ioutil.ReadAll'' MetaFileName of
           Some x \<Rightarrow> (fs, metafile, Some (Err ''can't read meta.json''))
         | None \<Rightarrow>
             (case Unmarshal h (entry_body e) metafile of
                Inl x \<Rightarrow> (fs, metafile, Some x)
              | Inr m \<Rightarrow> extract_entries h localPath es fs m))
      else
        (let extractFile = Join [localPath, entry_name e] in
         case fault h ''os.Create'' extractFile of
           Some x \<Rightarrow> (fs, metafile, Some x)
         | None \<Rightarrow>
             (case fault h ''io.Copy'' extractFile of
                Some x \<Rightarrow> (fs(extractFile \<mapsto> []), metafile, Some x)
              | None \<Rightarrow>
                  (case fault h ''dst.Close'' extractFile of
                     Some x \<Rightarrow> (fs(extractFile \<mapsto> entry_body e), metafile, Some x)
                   | None \<Rightarrow>
                       (case fault h ''file.Close'' extractFile of
                          Some x \<Rightarrow> (fs(extractFile \<mapsto> entry_body e), metafile, Some x)
                        | None \<Rightarrow>
                            extract_entries h localPath es (fs(extractFile \<mapsto> entry_body e))
                              metafile)))))"

text \<open>
  \<open>os.Link(oldname, newname)\<close>: fails when \<open>oldname\<close> is no file or \<open>newname\<close> exists;
  otherwise \<open>newname\<close> holds the bytes of \<open>oldname\<close>.
\<close>

definition os_Link :: "files \<Rightarrow> string \<Rightarrow> string \<Rightarrow> error + files" where
  "os_Link fs oldname newname =
     (case fs oldname of
        None \<Rightarrow> Inl ErrNotExist
      | Some c \<Rightarrow> if fs newname \<noteq> None then Inl ErrExist else Inr (fs(newname \<mapsto> c)))"

fun link_all :: "string \<Rightarrow> string \<Rightarrow> string list \<Rightarrow> files \<Rightarrow> files \<times> error option" where
  "link_all localPath required [] fs = (fs, None)"
| "link_all localPath required (hardlink # rest) fs =
     (let newname = Join [localPath, hardlink];
          oldname = Join [Dir localPath, required, hardlink]
      in case os_Link fs oldname newname of
           Inl e \<Rightarrow> (fs, Some e)
         | Inr fs' \<Rightarrow> link_all localPath required rest fs')"

definition IsExist :: "error \<Rightarrow> bool" where
  "IsExist e \<longleftrightarrow> e = ErrExist"

text \<open>
  \<open>os.MkdirAll\<close>: it fails on a path that names nothing, whatever the machine; on any
  other path it fails when the machine makes it fail.
\<close>

definition os_MkdirAll :: "host \<Rightarrow> string \<Rightarrow> error option" where
  "os_MkdirAll h p = (if no_path p then Some (path_error p) else fault h ''os.MkdirAll'' p)"

text \<open>
  The function calls itself for the required backup, so it need not return: a chain of
  archives that requires itself is downloaded for ever. The first argument bounds the
  depth of the calls; \<open>None\<close> says the bound was reached. The result is the files left
  on the machine and the error returned.
\<close>

fun CompressedStreamDownload ::
  "nat \<Rightarrow> 's BackupDestination \<Rightarrow> host \<Rightarrow> 's \<Rightarrow> string \<Rightarrow> string \<Rightarrow> files \<Rightarrow>
   (files \<times> error option) option"
where
  "CompressedStreamDownload 0 bd h s remotePath localPath fs = None"
| "CompressedStreamDownload (Suc n) bd h s remotePath localPath fs =
     (case os_MkdirAll h localPath of
        Some e \<Rightarrow> Some (fs, Some e)
      | None \<Rightarrow>
     (case Connect (storage bd) s of
        Some e \<Rightarrow> Some (fs, Some e)
      | None \<Rightarrow>
     (case GetFile (storage bd) s (archiveName bd h remotePath) of
        Inl e \<Rightarrow> Some (fs, Some e)
      | Inr file \<Rightarrow>
     (case GetFileReader (storage bd) s (archiveName bd h remotePath) of
        Inl e \<Rightarrow> Some (fs, Some e)
      | Inr reader \<Rightarrow>
     (case fault h ''z.Open'' (archiveName bd h remotePath) of
        Some e \<Rightarrow> Some (fs, Some e)
      | None \<Rightarrow>
     (case extract_entries h localPath (entries reader) fs zero_metafile of
        (fs1, metafile, Some e) \<Rightarrow> Some (fs1, Some e)
      | (fs1, metafile, None) \<Rightarrow>
     (case close_error reader of
        Some e \<Rightarrow> Some (fs1, Some e)
      | None \<Rightarrow>
          (if RequiredBackup metafile \<noteq> [] then
             (case CompressedStreamDownload n bd h s (RequiredBackup metafile)
                     (Join [Dir localPath, RequiredBackup metafile]) fs1 of
                None \<Rightarrow> None
              | Some (fs2, Some e) \<Rightarrow>
                  if \<not> IsExist e
                  then Some (fs2, Some (Wrapped
                         (''can't download '' @ CHR 0x27 # RequiredBackup metafile @ [CHR 0x27]) e))
                  else Some (link_all localPath (RequiredBackup metafile)
                               (Hardlinks metafile) fs2)
              | Some (fs2, None) \<Rightarrow>
                  Some (link_all localPath (RequiredBackup metafile) (Hardlinks metafile) fs2))
           else Some (link_all localPath (RequiredBackup metafile)
                        (Hardlinks metafile) fs1)))))))))"

section \<open>Machines and backends for the examples\<close>

text \<open>A backend whose \<open>GetFile\<close> fails with the given error, whatever the key.\<close>

definition failing_probe :: "error \<Rightarrow> string \<Rightarrow> mem BackupDestination" where
  "failing_probe e p =
     (mem_destination p ''tar'')\<lparr>storage := mem_storage\<lparr>GetFile := (\<lambda>s key. Inl e)\<rparr>\<rparr>"

text \<open>
  A machine with the backup directory \<open>/data/new\<close>, made after \<open>/data/old\<close>. \<open>a.bin\<close> is
  the same file in both (one inode, two names); \<open>b.bin\<close> has the same bytes in both
  but is another file; \<open>c.bin\<close> is in \<open>/data/new\<close> only. Its \<open>MarshalIndent\<close> writes the
  two fields one after the other.
\<close>

definition file_info :: "string \<Rightarrow> nat \<Rightarrow> nat \<Rightarrow> FileInfo" where
  "file_info name sz ino =
     \<lparr>fi_Name = name, fi_regular = True, fi_dir = False, fi_Size = int sz, fi_id = ino\<rparr>"

definition dir_info :: "string \<Rightarrow> nat \<Rightarrow> FileInfo" where
  "dir_info name ino =
     \<lparr>fi_Name = name, fi_regular = False, fi_dir = True, fi_Size = 0, fi_id = ino\<rparr>"

definition diff_host :: host where
  "diff_host =
     \<lparr>getExtension = (\<lambda>fmt. fmt),
      filepath_Walk = (\<lambda>p.
        if p = ''/data/new''
        then [Visit ''/data/new'' (dir_info ''new'' 2) None,
              Visit ''/data/new/a.bin'' (file_info ''a.bin'' 3 11) None,
              Visit ''/data/new/b.bin'' (file_info ''b.bin'' 3 12) None,
              Visit ''/data/new/c.bin'' (file_info ''c.bin'' 3 13) None]
        else [Failed p ErrNotExist]),
      os_Stat = (\<lambda>p.
        if p = ''/data/old'' then Inr (dir_info ''old'' 1)
        else if p = ''/data/old/a.bin'' then Inr (file_info ''a.bin'' 3 11)
        else if p = ''/data/old/b.bin'' then Inr (file_info ''b.bin'' 3 22)
        else Inl ErrNotExist),
      os_Open = (\<lambda>p.
        if p = ''/data/new/a.bin'' then Inr ''AAA''
        else if p = ''/data/new/b.bin'' then Inr ''BBB''
        else if p = ''/data/new/c.bin'' then Inr ''CCC''
        else Inl ErrNotExist),
      fault = (\<lambda>op arg. None),
      MarshalIndent = (\<lambda>m. Inr (RequiredBackup m @ concat (map (\<lambda>l. CHR '' '' # l) (Hardlinks m)))),
      Unmarshal = (\<lambda>b m. if b = ''{}'' then Inr m else Inl (Err ''invalid character''))\<rparr>"

section \<open>What a walk showed of a name\<close>

text \<open>
  The notions the catalog is specified with, stated on the walked objects themselves.
  A marker of a name was observed when some walked object under the path has the name
  as its first segment and the marker as its second; the name is a candidate when it is
  the first segment of some walked object under the path.
\<close>

definition marker_seen :: "string \<Rightarrow> string \<Rightarrow> string \<Rightarrow> RemoteFile list \<Rightarrow> bool" where
  "marker_seen path n m walked \<longleftrightarrow>
     list_ex (\<lambda>ob. HasPrefix (rf_Name ob) path \<and>
                   (case key_parts path (rf_Name ob) of
                      p0 # p1 # rest \<Rightarrow> p0 = n \<and> p1 = m
                    | _ \<Rightarrow> False)) walked"

definition candidate :: "string \<Rightarrow> string \<Rightarrow> RemoteFile list \<Rightarrow> bool" where
  "candidate path n walked \<longleftrightarrow>
     list_ex (\<lambda>ob. HasPrefix (rf_Name ob) path \<and> hd (key_parts path (rf_Name ob)) = n) walked"

definition listed :: "string \<Rightarrow> Backup list \<Rightarrow> bool" where
  "listed n bs \<longleftrightarrow> list_ex (\<lambda>b. Name b = n) bs"

text \<open>Whether one walked object shows the marker of a name.\<close>

definition shows_marker :: "string \<Rightarrow> string \<Rightarrow> string \<Rightarrow> RemoteFile \<Rightarrow> bool" where
  "shows_marker path n m ob \<longleftrightarrow>
     HasPrefix (rf_Name ob) path \<and>
     (case key_parts path (rf_Name ob) of p0 # p1 # rest \<Rightarrow> p0 = n \<and> p1 = m | _ \<Rightarrow> False)"

section \<open>Names that \<open>path.Join\<close> leaves as they are\<close>

text \<open>
  A plain path segment: not empty, without a slash, and neither \<open>.\<close> nor \<open>..\<close>. For such
  a name \<open>path.Join(p, name)\<close> is the name appended to a string that depends on \<open>p\<close>
  alone.
\<close>

definition plain_segment :: "string \<Rightarrow> bool" where
  "plain_segment n \<longleftrightarrow> n \<noteq> [] \<and> CHR ''/'' \<notin> set n \<and> n \<noteq> ''.'' \<and> n \<noteq> ''..''"

definition join_base :: "string \<Rightarrow> string" where
  "join_base p =
     (if p = [] then []
      else (let rooted = (hd p = CHR ''/'');
                st = foldl (clean_step rooted) [] (Split p (CHR ''/''))
            in (if rooted then ''/'' else []) @ (if st = [] then [] else join_slash st @ ''/'')))"

definition names_of :: "mem \<Rightarrow> string list" where
  "names_of s = map (\<lambda>ob. rf_Name (fst ob)) (objects s)"



section \<open>What a round trip stores and writes\<close>



section \<open>Properties of the catalog\<close>

lemma range_order_single: "range_order rng \<Longrightarrow> rng [x] = [x]"
  unfolding range_order_def by (metis mset.simps(1) mset.simps(2) mset_single_iff_right)

lemma range_order_Nil: "range_order rng \<Longrightarrow> rng [] = []"
  unfolding range_order_def by (metis mset_zero_iff_right mset.simps(1))

lemma range_order_id: "range_order (\<lambda>fs. fs)"
  by (simp add: range_order_def)

lemma range_order_rev: "range_order rev"
  by (simp add: range_order_def)

lemma HasPrefix_Nil: "HasPrefix s [] = True"
  by (simp add: HasPrefix_def)

lemma lookup_update: "lookup (AList.update k v fs) k = v"
  by (simp add: lookup_def update_conv')

lemma BackupList_mem:
  "BackupList rng (mem_destination p fmt) (holding ws) =
     Inr (catalog rng p (filter (\<lambda>f. HasPrefix (rf_Name f) p) ws))"
  by (simp add: BackupList_def mem_destination_def mem_storage_def mem_Walk_def holding_def
      comp_def)

lemma BackupList_mem_root:
  "BackupList rng (mem_destination [] fmt) (holding ws) = Inr (catalog rng [] ws)"
  by (simp add: BackupList_mem HasPrefix_Nil)

lemma collect_single:
  "collect [(n, e)] = (if is_backup e then [\<lparr>Name = n, Size = cb_Size e, Date = cb_Date e\<rparr>] else [])"
  by (simp add: collect_def)

lemma walk_archive_first:
  "walk_files []
     [remote_file ''n.tar'' sz d, remote_file ''n.tar/metadata/x'' sz1 d1,
      remote_file ''n.tar/shadow/y'' sz2 d2] =
   [(''n.tar'', \<lparr>Metadata = False, Shadow = True, Tar = False, cb_Size = sz2, cb_Date = d2\<rparr>)]"
  by code_simp

lemma walk_archive_last:
  "walk_files []
     [remote_file ''n.tar/metadata/x'' sz1 d1, remote_file ''n.tar/shadow/y'' sz2 d2,
      remote_file ''n.tar'' sz d] =
   [(''n.tar'', \<lparr>Metadata = False, Shadow = False, Tar = True, cb_Size = sz, cb_Date = d\<rparr>)]"
  by code_simp

text \<open>
  C10. \<open>BackupList\<close> is not a function of the set of walked keys. A remote side that
  holds the archive \<open>n.tar\<close> and the objects \<open>n.tar/metadata/x\<close> and \<open>n.tar/shadow/y\<close>
  gives an empty catalog when the archive is walked first and the catalog with \<open>n.tar\<close>
  when it is walked last. The cause: for a first segment with an archive suffix the
  first statement of the callback stores an accumulator with both markers reset, and
  for a key of more than one segment the second statement stores one whose \<open>Tar\<close> flag
  is not set.
\<close>

theorem BackupList_depends_on_walk_order:
  assumes "range_order rng"
  shows
    "set [remote_file ''n.tar'' sz d, remote_file ''n.tar/metadata/x'' sz1 d1,
          remote_file ''n.tar/shadow/y'' sz2 d2] =
     set [remote_file ''n.tar/metadata/x'' sz1 d1, remote_file ''n.tar/shadow/y'' sz2 d2,
          remote_file ''n.tar'' sz d] \<and>
     BackupList rng (mem_destination [] fmt)
       (holding [remote_file ''n.tar'' sz d, remote_file ''n.tar/metadata/x'' sz1 d1,
                 remote_file ''n.tar/shadow/y'' sz2 d2]) = Inr [] \<and>
     BackupList rng (mem_destination [] fmt)
       (holding [remote_file ''n.tar/metadata/x'' sz1 d1, remote_file ''n.tar/shadow/y'' sz2 d2,
                 remote_file ''n.tar'' sz d]) = Inr [\<lparr>Name = ''n.tar'', Size = sz, Date = d\<rparr>] \<and>
     (\<forall>p0 ob files. archive_suffix p0 \<longrightarrow>
        lookup (tar_branch p0 ob files) p0 =
          \<lparr>Metadata = False, Shadow = False, Tar = True,
           cb_Size = rf_Size ob, cb_Date = rf_LastModified ob\<rparr>) \<and>
     (\<forall>p0 p1 rest files. \<not> Tar (lookup (marker_branch (p0 # p1 # rest) files) p0))"
proof -
  have same: "set [remote_file ''n.tar'' sz d, remote_file ''n.tar/metadata/x'' sz1 d1,
          remote_file ''n.tar/shadow/y'' sz2 d2] =
     set [remote_file ''n.tar/metadata/x'' sz1 d1, remote_file ''n.tar/shadow/y'' sz2 d2,
          remote_file ''n.tar'' sz d]"
    by auto
  have first: "catalog rng []
       [remote_file ''n.tar'' sz d, remote_file ''n.tar/metadata/x'' sz1 d1,
        remote_file ''n.tar/shadow/y'' sz2 d2] = []"
    unfolding catalog_def walk_archive_first range_order_single [OF assms]
    by (simp add: collect_single is_backup_def SliceStable_def)
  have last: "catalog rng []
       [remote_file ''n.tar/metadata/x'' sz1 d1, remote_file ''n.tar/shadow/y'' sz2 d2,
        remote_file ''n.tar'' sz d] = [\<lparr>Name = ''n.tar'', Size = sz, Date = d\<rparr>]"
    unfolding catalog_def walk_archive_last range_order_single [OF assms]
    by (simp add: collect_single is_backup_def SliceStable_def)
  have reset: "\<forall>p0 ob files. archive_suffix p0 \<longrightarrow>
        lookup (tar_branch p0 ob files) p0 =
          \<lparr>Metadata = False, Shadow = False, Tar = True,
           cb_Size = rf_Size ob, cb_Date = rf_LastModified ob\<rparr>"
    by (simp add: tar_branch_def lookup_update)
  have dropped: "\<forall>p0 p1 rest files. \<not> Tar (lookup (marker_branch (p0 # p1 # rest) files) p0)"
    by (simp add: marker_branch_def Let_def lookup_update)
  show ?thesis
    unfolding BackupList_mem_root using same first last reset dropped by blast
qed

theorem BackupList_depends_on_walk_order_witness:
  "range_order (\<lambda>fs. fs) \<and>
   BackupList (\<lambda>fs. fs) (mem_destination [] ''tar'')
     (holding [remote_file ''n.tar'' 7 3, remote_file ''n.tar/metadata/x'' 1 1,
               remote_file ''n.tar/shadow/y'' 1 2]) = Inr [] \<and>
   BackupList (\<lambda>fs. fs) (mem_destination [] ''tar'')
     (holding [remote_file ''n.tar/metadata/x'' 1 1, remote_file ''n.tar/shadow/y'' 1 2,
               remote_file ''n.tar'' 7 3]) = Inr [\<lparr>Name = ''n.tar'', Size = 7, Date = 3\<rparr>] \<and>
   archive_suffix ''n.tar'' \<and>
   lookup (tar_branch ''n.tar'' (remote_file ''n.tar'' 7 3)
             [(''n.tar'', \<lparr>Metadata = True, Shadow = True, Tar = False, cb_Size = 0, cb_Date = 0\<rparr>)])
      ''n.tar'' =
     \<lparr>Metadata = False, Shadow = False, Tar = True, cb_Size = 7, cb_Date = 3\<rparr>"
proof -
  have suf: "archive_suffix ''n.tar''"
    by (simp add: archive_suffix_def HasSuffix_def suffix_def)
  show ?thesis
    using BackupList_depends_on_walk_order [OF range_order_id, of 7 3 1 1 1 2 "''tar''"] suf
    by (simp add: range_order_id remote_file_def)
qed

text \<open>
  C3. The catalog is specified to hold a candidate name exactly when its metadata and
  shadow markers were both observed or its first segment has an archive suffix. For a
  backup in the directory layout whose name ends in \<open>.tar\<close> both hold, and \<open>BackupList\<close>
  leaves it out: each of its keys resets the markers the keys before it had set.
\<close>

theorem BackupList_drops_directory_named_like_archive:
  assumes "range_order rng"
  shows
    "candidate [] ''bk.tar''
       [remote_file ''bk.tar/metadata/x'' s1 d1, remote_file ''bk.tar/shadow/y'' s2 d2] \<and>
     marker_seen [] ''bk.tar'' ''metadata''
       [remote_file ''bk.tar/metadata/x'' s1 d1, remote_file ''bk.tar/shadow/y'' s2 d2] \<and>
     marker_seen [] ''bk.tar'' ''shadow''
       [remote_file ''bk.tar/metadata/x'' s1 d1, remote_file ''bk.tar/shadow/y'' s2 d2] \<and>
     archive_suffix ''bk.tar'' \<and>
     BackupList rng (mem_destination [] fmt)
       (holding [remote_file ''bk.tar/metadata/x'' s1 d1, remote_file ''bk.tar/shadow/y'' s2 d2])
       = Inr []"
proof -
  have w: "walk_files []
       [remote_file ''bk.tar/metadata/x'' s1 d1, remote_file ''bk.tar/shadow/y'' s2 d2] =
     [(''bk.tar'', \<lparr>Metadata = False, Shadow = True, Tar = False, cb_Size = s2, cb_Date = d2\<rparr>)]"
    by code_simp
  have c: "catalog rng []
       [remote_file ''bk.tar/metadata/x'' s1 d1, remote_file ''bk.tar/shadow/y'' s2 d2] = []"
    unfolding catalog_def w range_order_single [OF assms]
    by (simp add: collect_single is_backup_def SliceStable_def)
  have "candidate [] ''bk.tar''
       [remote_file ''bk.tar/metadata/x'' s1 d1, remote_file ''bk.tar/shadow/y'' s2 d2]"
    by code_simp
  moreover have "marker_seen [] ''bk.tar'' ''metadata''
       [remote_file ''bk.tar/metadata/x'' s1 d1, remote_file ''bk.tar/shadow/y'' s2 d2]"
    by code_simp
  moreover have "marker_seen [] ''bk.tar'' ''shadow''
       [remote_file ''bk.tar/metadata/x'' s1 d1, remote_file ''bk.tar/shadow/y'' s2 d2]"
    by code_simp
  moreover have "archive_suffix ''bk.tar''"
    by code_simp
  ultimately show ?thesis
    unfolding BackupList_mem_root c by simp
qed

theorem BackupList_drops_directory_named_like_archive_witness:
  "range_order rev \<and>
   BackupList rev (mem_destination [] ''tar'')
     (holding [remote_file ''bk.tar/metadata/x'' 10 1, remote_file ''bk.tar/shadow/y'' 20 2])
     = Inr []"
  using BackupList_drops_directory_named_like_archive [OF range_order_rev, of 10 1 20 2 "''tar''"]
  by (simp add: range_order_rev)

text \<open>
  C7, as stated: ties keep the order in which the names were first met in the walk.
  The entries are gathered by \<open>range\<close> over a Go map, whose order is not the order of
  insertion; with the names \<open>a\<close> then \<open>b\<close> first met in that order, both of date zero, a
  \<open>range\<close> that yields \<open>b\<close> first gives the catalog \<open>b\<close>, \<open>a\<close>.
\<close>

theorem BackupList_ties_not_first_seen:
  "range_order rev \<and>
   map fst (walk_files []
     [remote_file ''a/metadata/x'' 1 5, remote_file ''a/shadow/y'' 1 6,
      remote_file ''b/metadata/x'' 1 7, remote_file ''b/shadow/y'' 1 8]) = [''a'', ''b''] \<and>
   BackupList rev (mem_destination [] ''tar'')
     (holding [remote_file ''a/metadata/x'' 1 5, remote_file ''a/shadow/y'' 1 6,
               remote_file ''b/metadata/x'' 1 7, remote_file ''b/shadow/y'' 1 8]) =
     Inr [\<lparr>Name = ''b'', Size = 0, Date = 0\<rparr>, \<lparr>Name = ''a'', Size = 0, Date = 0\<rparr>]"
proof -
  have w: "walk_files []
     [remote_file ''a/metadata/x'' 1 5, remote_file ''a/shadow/y'' 1 6,
      remote_file ''b/metadata/x'' 1 7, remote_file ''b/shadow/y'' 1 8] =
     [(''a'', \<lparr>Metadata = True, Shadow = True, Tar = False, cb_Size = 0, cb_Date = 0\<rparr>),
      (''b'', \<lparr>Metadata = True, Shadow = True, Tar = False, cb_Size = 0, cb_Date = 0\<rparr>)]"
    by code_simp
  show ?thesis
    unfolding BackupList_mem_root catalog_def w
    by (simp add: range_order_rev collect_def is_backup_def SliceStable_def)
qed

text \<open>
  C7, amended: the list that \<open>BackupList\<close> returns is sorted ascending by date, and the
  sort is stable: backups of equal date keep the order in which \<open>range\<close> over the map
  produced them.
\<close>

theorem BackupList_sorted_stable:
  assumes "BackupList rng bd s = Inr bs"
  shows
    "sorted (map Date bs) \<and>
     (\<exists>walked. Walk (storage bd) s (bd_path bd) = (walked, None) \<and>
        (\<forall>d. filter (\<lambda>b. Date b = d) bs =
              filter (\<lambda>b. Date b = d) (collect (rng (walk_files (bd_path bd) walked)))))"
proof -
  obtain walked where w: "Walk (storage bd) s (bd_path bd) = (walked, None)"
    and bs: "bs = catalog rng (bd_path bd) walked"
    using assms by (auto simp: BackupList_def split: prod.splits option.splits)
  have "sorted (map Date bs)"
    by (simp add: bs catalog_def SliceStable_def)
  moreover have "\<forall>d. filter (\<lambda>b. Date b = d) bs =
              filter (\<lambda>b. Date b = d) (collect (rng (walk_files (bd_path bd) walked)))"
    by (simp add: bs catalog_def SliceStable_def sort_key_stable)
  ultimately show ?thesis using w by blast
qed

theorem BackupList_sorted_stable_witness:
  "BackupList rev (mem_destination [] ''tar'')
     (holding [remote_file ''b.tar'' 1 9, remote_file ''a.tar'' 1 4]) =
     Inr [\<lparr>Name = ''a.tar'', Size = 1, Date = 4\<rparr>, \<lparr>Name = ''b.tar'', Size = 1, Date = 9\<rparr>] \<and>
   sorted (map Date [\<lparr>Name = ''a.tar'', Size = 1, Date = 4\<rparr>, \<lparr>Name = ''b.tar'', Size = 1, Date = 9\<rparr>])"
proof -
  have w: "walk_files [] [remote_file ''b.tar'' 1 9, remote_file ''a.tar'' 1 4] =
     [(''b.tar'', \<lparr>Metadata = False, Shadow = False, Tar = True, cb_Size = 1, cb_Date = 9\<rparr>),
      (''a.tar'', \<lparr>Metadata = False, Shadow = False, Tar = True, cb_Size = 1, cb_Date = 4\<rparr>)]"
    by code_simp
  have b: "BackupList rev (mem_destination [] ''tar'')
     (holding [remote_file ''b.tar'' 1 9, remote_file ''a.tar'' 1 4]) =
     Inr [\<lparr>Name = ''a.tar'', Size = 1, Date = 4\<rparr>, \<lparr>Name = ''b.tar'', Size = 1, Date = 9\<rparr>]"
    unfolding BackupList_mem_root catalog_def w
    by (simp add: collect_def is_backup_def SliceStable_def)
  show ?thesis
    using BackupList_sorted_stable [OF b] b by simp
qed

section \<open>Properties of retention\<close>

lemma range_order_pair: "range_order rng \<Longrightarrow> rng [x, y] = [x, y] \<or> rng [x, y] = [y, x]"
proof -
  assume "range_order rng"
  then have m: "mset (rng [x, y]) = {#x, y#}" by (simp add: range_order_def)
  then have "length (rng [x, y]) = 2" by (metis size_mset size_add_mset size_empty numeral_2_eq_2)
  then obtain u v where uv: "rng [x, y] = [u, v]"
    by (metis (no_types, opaque_lifting) length_0_conv length_Suc_conv numeral_2_eq_2)
  with m show ?thesis by (auto simp: add_eq_conv_ex)
qed

lemma Split_no_sep: "sep \<notin> set n \<Longrightarrow> Split n sep = [n]"
  by (induction n) auto

lemma Split_not_Nil: "Split s sep \<noteq> []"
  by (induction s) (auto split: list.splits)

lemma Split_append: "Split (xs @ sep # ys) sep = Split xs sep @ Split ys sep"
  by (induction xs) (auto split: list.splits simp: Split_not_Nil)

lemma join_slash_snoc:
  "join_slash (st @ [n]) = (if st = [] then n else join_slash st @ CHR ''/'' # n)"
  by (induction st rule: join_slash.induct) auto

lemma Join_plain: "plain_segment n \<Longrightarrow> Join [p, n] = join_base p @ n"
proof (cases "p = []")
  case True
  assume pl: "plain_segment n"
  then have "Split n (CHR ''/'') = [n]" by (simp add: plain_segment_def Split_no_sep)
  moreover have "hd n \<noteq> CHR ''/''" using pl by (cases n) (auto simp: plain_segment_def)
  ultimately show ?thesis using pl True
    by (simp add: Join_def Clean_def join_base_def clean_step_def plain_segment_def)
next
  case False
  assume pl: "plain_segment n"
  then have sp: "Split (p @ CHR ''/'' # n) (CHR ''/'') = Split p (CHR ''/'') @ [n]"
    by (simp add: Split_append Split_no_sep plain_segment_def)
  show ?thesis using pl False
    by (auto simp add: Join_def Clean_def join_base_def sp clean_step_def plain_segment_def
        Let_def join_slash_snoc)
qed

lemma HasPrefix_Join_plain:
  "plain_segment a \<Longrightarrow> plain_segment b \<Longrightarrow> prefix a b \<Longrightarrow>
   HasPrefix k (Join [p, b]) \<Longrightarrow> HasPrefix k (Join [p, a])"
  by (auto simp: Join_plain HasPrefix_def prefix_def)

lemma DeleteFiles_mem:
  "distinct keys \<Longrightarrow> set keys \<subseteq> set (names_of s) \<Longrightarrow>
   DeleteFiles mem_storage keys s =
     (s\<lparr>objects := filter (\<lambda>ob. rf_Name (fst ob) \<notin> set keys) (objects s)\<rparr>, None)"
proof (induction keys arbitrary: s)
  case Nil
  then show ?case by simp
next
  case (Cons key keys)
  let ?s' = "s\<lparr>objects := filter (\<lambda>ob. \<not> has_key key ob) (objects s)\<rparr>"
  have ex: "list_ex (has_key key) (objects s)"
    using Cons.prems(2) by (auto simp: list_ex_iff has_key_def names_of_def)
  have d: "DeleteFile mem_storage s key = (?s', None)"
    using ex by (simp add: mem_storage_def mem_DeleteFile_def)
  have sub: "set keys \<subseteq> set (names_of ?s')"
  proof
    fix k assume k: "k \<in> set keys"
    then have "k \<noteq> key" using Cons.prems(1) by auto
    moreover have "k \<in> set (names_of s)" using k Cons.prems(2) by auto
    ultimately show "k \<in> set (names_of ?s')"
      by (auto simp: names_of_def has_key_def)
  qed
  have "DeleteFiles mem_storage keys ?s' =
     (?s'\<lparr>objects := filter (\<lambda>ob. rf_Name (fst ob) \<notin> set keys) (objects ?s')\<rparr>, None)"
    using Cons.IH [OF _ sub] Cons.prems(1) by simp
  moreover have "filter (\<lambda>ob. rf_Name (fst ob) \<notin> set keys) (objects ?s') =
      filter (\<lambda>ob. rf_Name (fst ob) \<notin> set (key # keys)) (objects s)"
    by (auto simp: has_key_def intro: filter_cong)
  ultimately show ?case using d by simp
qed

lemma RemoveBackup_mem:
  assumes "distinct (names_of s)"
  shows "RemoveBackup (mem_destination p fmt) name s =
     (s\<lparr>objects := filter (\<lambda>ob. rf_Name (fst ob) \<notin> set (marked p name (fst (mem_Walk s p))))
                      (objects s)\<rparr>, None)"
proof -
  have d: "distinct (marked p name (fst (mem_Walk s p)))"
    using assms
    by (simp add: marked_def mem_Walk_def names_of_def filter_map comp_def distinct_map_filter)
  have sub: "set (marked p name (fst (mem_Walk s p))) \<subseteq> set (names_of s)"
    by (auto simp: marked_def mem_Walk_def names_of_def)
  show ?thesis
    using DeleteFiles_mem [OF d sub]
    by (simp add: RemoveBackup_def mem_destination_def mem_storage_def mem_Walk_def)
qed

text \<open>
  C9, as stated: for every pair of backups of which one name is a proper string prefix
  of the other, \<open>RemoveBackup\<close> of the shorter name deletes the keys of the longer.
  \<open>path.Join\<close> cleans what it joins: under the path \<open>p\<close> the catalog lists the backups
  \<open>..\<close> and \<open>..a\<close>, \<open>path.Join("p", "..")\<close> is \<open>.\<close>, no key has that prefix, and
  \<open>RemoveBackup("..")\<close> deletes nothing.
\<close>

theorem RemoveBackup_cleaned_name_keeps_longer:
  "strict_prefix ''..'' ''..a'' \<and>
   BackupList (\<lambda>fs. fs) (mem_destination ''p'' ''tar'')
     (holding [remote_file ''p/../metadata/x'' 1 1, remote_file ''p/../shadow/y'' 1 2,
               remote_file ''p/..a/metadata/x'' 1 3, remote_file ''p/..a/shadow/y'' 1 4]) =
     Inr [\<lparr>Name = ''..'', Size = 0, Date = 0\<rparr>, \<lparr>Name = ''..a'', Size = 0, Date = 0\<rparr>] \<and>
   marked ''p'' ''..a''
     [remote_file ''p/../metadata/x'' 1 1, remote_file ''p/../shadow/y'' 1 2,
      remote_file ''p/..a/metadata/x'' 1 3, remote_file ''p/..a/shadow/y'' 1 4] =
     [''p/..a/metadata/x'', ''p/..a/shadow/y''] \<and>
   Join [''p'', ''..''] = ''.'' \<and>
   RemoveBackup (mem_destination ''p'' ''tar'') ''..''
     (holding [remote_file ''p/../metadata/x'' 1 1, remote_file ''p/../shadow/y'' 1 2,
               remote_file ''p/..a/metadata/x'' 1 3, remote_file ''p/..a/shadow/y'' 1 4]) =
     (holding [remote_file ''p/../metadata/x'' 1 1, remote_file ''p/../shadow/y'' 1 2,
               remote_file ''p/..a/metadata/x'' 1 3, remote_file ''p/..a/shadow/y'' 1 4], None)"
proof -
  have "strict_prefix ''..'' ''..a''"
    by (simp add: strict_prefix_def)
  moreover have "BackupList (\<lambda>fs. fs) (mem_destination ''p'' ''tar'')
     (holding [remote_file ''p/../metadata/x'' 1 1, remote_file ''p/../shadow/y'' 1 2,
               remote_file ''p/..a/metadata/x'' 1 3, remote_file ''p/..a/shadow/y'' 1 4]) =
     Inr [\<lparr>Name = ''..'', Size = 0, Date = 0\<rparr>, \<lparr>Name = ''..a'', Size = 0, Date = 0\<rparr>]"
    by code_simp
  moreover have "marked ''p'' ''..a''
     [remote_file ''p/../metadata/x'' 1 1, remote_file ''p/../shadow/y'' 1 2,
      remote_file ''p/..a/metadata/x'' 1 3, remote_file ''p/..a/shadow/y'' 1 4] =
     [''p/..a/metadata/x'', ''p/..a/shadow/y'']"
    by code_simp
  moreover have "Join [''p'', ''..''] = ''.''"
    by code_simp
  moreover have "RemoveBackup (mem_destination ''p'' ''tar'') ''..''
     (holding [remote_file ''p/../metadata/x'' 1 1, remote_file ''p/../shadow/y'' 1 2,
               remote_file ''p/..a/metadata/x'' 1 3, remote_file ''p/..a/shadow/y'' 1 4]) =
     (holding [remote_file ''p/../metadata/x'' 1 1, remote_file ''p/../shadow/y'' 1 2,
               remote_file ''p/..a/metadata/x'' 1 3, remote_file ''p/..a/shadow/y'' 1 4], None)"
    by code_simp
  ultimately show ?thesis by blast
qed

text \<open>
  C9, amended: \<open>RemoveBackup(name)\<close> marks for deletion exactly the walked keys that have
  the string prefix \<open>path.Join(bd.path, name)\<close>, with no check of a separator after it.
  So, for names that are plain path segments, one a proper string prefix of the other,
  every key that \<open>RemoveBackup\<close> of the longer name marks is marked by \<open>RemoveBackup\<close> of
  the shorter name too; on a store with one object per key, \<open>RemoveBackup\<close> of the
  shorter name succeeds, removes exactly the keys it marked, and leaves no key of the
  longer name.
\<close>

theorem RemoveBackup_prefix_match:
  assumes "plain_segment a" and "plain_segment b" and "strict_prefix a b"
    and "distinct (names_of s)"
  shows
    "(\<forall>name walked. marked p name walked =
        map rf_Name (filter (\<lambda>f. prefix (Join [p, name]) (rf_Name f)) walked)) \<and>
     (\<forall>walked. set (marked p b walked) \<subseteq> set (marked p a walked)) \<and>
     RemoveBackup (mem_destination p fmt) a s =
       (s\<lparr>objects :=
            filter (\<lambda>ob. rf_Name (fst ob) \<notin> set (marked p a (fst (Walk mem_storage s p))))
                   (objects s)\<rparr>, None) \<and>
     marked p b (fst (Walk mem_storage
       (s\<lparr>objects :=
            filter (\<lambda>ob. rf_Name (fst ob) \<notin> set (marked p a (fst (Walk mem_storage s p))))
                   (objects s)\<rparr>) p)) = []"
proof -
  have pre: "prefix a b" using assms(3) by (simp add: strict_prefix_def)
  have one: "\<forall>name walked. marked p name walked =
        map rf_Name (filter (\<lambda>f. prefix (Join [p, name]) (rf_Name f)) walked)"
    by (simp add: marked_def HasPrefix_def)
  have two: "\<forall>walked. set (marked p b walked) \<subseteq> set (marked p a walked)"
    using HasPrefix_Join_plain [OF assms(1) assms(2) pre] by (auto simp: marked_def)
  let ?s' = "s\<lparr>objects :=
      filter (\<lambda>ob. rf_Name (fst ob) \<notin> set (marked p a (fst (mem_Walk s p)))) (objects s)\<rparr>"
  have rb: "RemoveBackup (mem_destination p fmt) a s = (?s', None)"
    by (rule RemoveBackup_mem [OF assms(4)])
  have none: "marked p b (fst (mem_Walk ?s' p)) = []"
  proof -
    have "\<And>ob. ob \<in> set (objects ?s') \<Longrightarrow> HasPrefix (rf_Name (fst ob)) p \<Longrightarrow>
            \<not> HasPrefix (rf_Name (fst ob)) (Join [p, b])"
    proof
      fix ob
      assume m: "ob \<in> set (objects ?s')" and w: "HasPrefix (rf_Name (fst ob)) p"
        and l: "HasPrefix (rf_Name (fst ob)) (Join [p, b])"
      have "HasPrefix (rf_Name (fst ob)) (Join [p, a])"
        by (rule HasPrefix_Join_plain [OF assms(1) assms(2) pre l])
      moreover have "ob \<in> set (objects s)" using m by simp
      ultimately have "rf_Name (fst ob) \<in> set (marked p a (fst (mem_Walk s p)))"
        using w by (force simp: marked_def mem_Walk_def)
      then show False using m by simp
    qed
    then show ?thesis
      by (auto simp: marked_def mem_Walk_def filter_empty_conv)
  qed
  show ?thesis
    using one two rb none by (simp add: mem_storage_def)
qed

theorem RemoveBackup_prefix_match_witness:
  "plain_segment ''a'' \<and> plain_segment ''ab'' \<and> strict_prefix ''a'' ''ab'' \<and>
   distinct (names_of (holding [remote_file ''backups/a/metadata/x'' 1 1,
      remote_file ''backups/ab/metadata/x'' 1 2, remote_file ''backups/c/shadow/y'' 1 3])) \<and>
   marked ''backups'' ''ab'' [remote_file ''backups/a/metadata/x'' 1 1,
      remote_file ''backups/ab/metadata/x'' 1 2, remote_file ''backups/c/shadow/y'' 1 3] =
     [''backups/ab/metadata/x''] \<and>
   RemoveBackup (mem_destination ''backups'' ''tar'') ''a''
     (holding [remote_file ''backups/a/metadata/x'' 1 1,
        remote_file ''backups/ab/metadata/x'' 1 2, remote_file ''backups/c/shadow/y'' 1 3]) =
     (holding [remote_file ''backups/c/shadow/y'' 1 3], None)"
proof -
  have a: "plain_segment ''a''" by (simp add: plain_segment_def)
  have b: "plain_segment ''ab''" by (simp add: plain_segment_def)
  have c: "strict_prefix ''a'' ''ab''" by (simp add: strict_prefix_def)
  have d: "distinct (names_of (holding [remote_file ''backups/a/metadata/x'' 1 1,
      remote_file ''backups/ab/metadata/x'' 1 2, remote_file ''backups/c/shadow/y'' 1 3]))"
    by (simp add: names_of_def holding_def remote_file_def)
  have m: "marked ''backups'' ''a'' (fst (Walk mem_storage
      (holding [remote_file ''backups/a/metadata/x'' 1 1,
        remote_file ''backups/ab/metadata/x'' 1 2, remote_file ''backups/c/shadow/y'' 1 3])
      ''backups'')) = [''backups/a/metadata/x'', ''backups/ab/metadata/x'']"
    by code_simp
  have m': "marked ''backups'' ''ab'' [remote_file ''backups/a/metadata/x'' 1 1,
      remote_file ''backups/ab/metadata/x'' 1 2, remote_file ''backups/c/shadow/y'' 1 3] =
     [''backups/ab/metadata/x'']"
    by code_simp
  have "RemoveBackup (mem_destination ''backups'' ''tar'') ''a''
     (holding [remote_file ''backups/a/metadata/x'' 1 1,
        remote_file ''backups/ab/metadata/x'' 1 2, remote_file ''backups/c/shadow/y'' 1 3]) =
     (holding [remote_file ''backups/c/shadow/y'' 1 3], None)"
    using RemoveBackup_prefix_match [OF a b c d, of "''backups''" "''tar''"]
    unfolding m
    by (simp add: holding_def remote_file_def)
  then show ?thesis
    using a b c d m' by simp
qed

lemma RemoveOldBackups_keep_below_one:
  "keep < 1 \<Longrightarrow> RemoveOldBackups rng bd keep s = (s, None)"
  by (simp add: RemoveOldBackups_def)

lemma GetBackupsToDelete_few:
  "int (length backups) \<le> keep \<Longrightarrow> GetBackupsToDelete backups keep = []"
  by (simp add: GetBackupsToDelete_def)

lemma GetBackupsToDelete_oldest:
  "keep < int (length backups) \<Longrightarrow> sorted (map Date backups) \<Longrightarrow>
   GetBackupsToDelete backups keep = take (length backups - nat keep) backups"
  by (simp add: GetBackupsToDelete_def sort_key_id_if_sorted)

lemma RemoveOldBackups_few:
  "BackupList rng bd s = Inr backupList \<Longrightarrow> int (length backupList) \<le> keep \<Longrightarrow>
   RemoveOldBackups rng bd keep s = (s, None)"
  by (simp add: RemoveOldBackups_def GetBackupsToDelete_few)

text \<open>
  C6. With \<open>keep = 1\<close> and a catalog of the two archives \<open>bk.tar\<close> (older) and
  \<open>bk.tar.gz\<close> (newer), retention is to remove \<open>bk.tar\<close> alone and leave the most
  recent backup. \<open>GetBackupsToDelete\<close> selects \<open>bk.tar\<close>; \<open>RemoveBackup("bk.tar")\<close> then
  deletes every key with the string prefix \<open>bk.tar\<close>, the key \<open>bk.tar.gz\<close> among them,
  and nothing is left.
\<close>

theorem RemoveOldBackups_removes_newer_backup:
  assumes "range_order rng"
  shows
    "BackupList rng (mem_destination [] fmt)
       (holding [remote_file ''bk.tar'' 10 1, remote_file ''bk.tar.gz'' 10 2]) =
       Inr [\<lparr>Name = ''bk.tar'', Size = 10, Date = 1\<rparr>,
            \<lparr>Name = ''bk.tar.gz'', Size = 10, Date = 2\<rparr>] \<and>
     GetBackupsToDelete
       [\<lparr>Name = ''bk.tar'', Size = 10, Date = 1\<rparr>,
        \<lparr>Name = ''bk.tar.gz'', Size = 10, Date = 2\<rparr>] 1 =
       [\<lparr>Name = ''bk.tar'', Size = 10, Date = 1\<rparr>] \<and>
     RemoveOldBackups rng (mem_destination [] fmt) 1
       (holding [remote_file ''bk.tar'' 10 1, remote_file ''bk.tar.gz'' 10 2]) =
       (holding [], None)"
proof -
  have w: "walk_files [] [remote_file ''bk.tar'' 10 1, remote_file ''bk.tar.gz'' 10 2] =
     [(''bk.tar'', \<lparr>Metadata = False, Shadow = False, Tar = True, cb_Size = 10, cb_Date = 1\<rparr>),
      (''bk.tar.gz'', \<lparr>Metadata = False, Shadow = False, Tar = True, cb_Size = 10, cb_Date = 2\<rparr>)]"
    by code_simp
  have c: "catalog rng [] [remote_file ''bk.tar'' 10 1, remote_file ''bk.tar.gz'' 10 2] =
       [\<lparr>Name = ''bk.tar'', Size = 10, Date = 1\<rparr>,
        \<lparr>Name = ''bk.tar.gz'', Size = 10, Date = 2\<rparr>]"
    unfolding catalog_def w
    using range_order_pair [OF assms,
        of "(''bk.tar'', \<lparr>Metadata = False, Shadow = False, Tar = True, cb_Size = 10, cb_Date = 1\<rparr>)"
           "(''bk.tar.gz'', \<lparr>Metadata = False, Shadow = False, Tar = True, cb_Size = 10, cb_Date = 2\<rparr>)"]
    by (auto simp: collect_def is_backup_def SliceStable_def)
  have l: "BackupList rng (mem_destination [] fmt)
       (holding [remote_file ''bk.tar'' 10 1, remote_file ''bk.tar.gz'' 10 2]) =
       Inr [\<lparr>Name = ''bk.tar'', Size = 10, Date = 1\<rparr>,
            \<lparr>Name = ''bk.tar.gz'', Size = 10, Date = 2\<rparr>]"
    unfolding BackupList_mem_root c by simp
  have g: "GetBackupsToDelete
       [\<lparr>Name = ''bk.tar'', Size = 10, Date = 1\<rparr>,
        \<lparr>Name = ''bk.tar.gz'', Size = 10, Date = 2\<rparr>] 1 =
       [\<lparr>Name = ''bk.tar'', Size = 10, Date = 1\<rparr>]"
    by (simp add: GetBackupsToDelete_def)
  have r: "RemoveBackup (mem_destination [] fmt) ''bk.tar''
       (holding [remote_file ''bk.tar'' 10 1, remote_file ''bk.tar.gz'' 10 2]) =
       (holding [], None)"
    by code_simp
  have "RemoveOldBackups rng (mem_destination [] fmt) 1
       (holding [remote_file ''bk.tar'' 10 1, remote_file ''bk.tar.gz'' 10 2]) =
       (holding [], None)"
    by (simp add: RemoveOldBackups_def l g r)
  with l g show ?thesis by simp
qed

theorem RemoveOldBackups_removes_newer_backup_witness:
  "range_order rev \<and>
   RemoveOldBackups rev (mem_destination [] ''tar'') 1
     (holding [remote_file ''bk.tar'' 10 1, remote_file ''bk.tar.gz'' 10 2]) =
     (holding [], None)"
  using RemoveOldBackups_removes_newer_backup [OF range_order_rev, of "''tar''"]
  by (simp add: range_order_rev)

section \<open>Properties of the upload\<close>

lemma Base_not_Nil: "Base p \<noteq> []"
  by (simp add: Base_def Let_def)

lemma walk_upload_acc:
  "walk_upload h lp dp items ents0 hl0 = (ents, hl, None) \<Longrightarrow>
   ents = ents0 @ map (entry_for h lp) (filter (\<lambda>x. \<not> linked h lp dp x) (regular_files items)) \<and>
   hl = hl0 @ map (\<lambda>x. relativePath lp (fst x)) (filter (linked h lp dp) (regular_files items)) \<and>
   list_all (\<lambda>x. os_Open h (fst x) = Inr (contents h (fst x))) (regular_files items)"
proof (induction items arbitrary: ents0 hl0)
  case Nil
  then show ?case by simp
next
  case (Cons it its)
  show ?case
  proof (cases it)
    case (Failed p e)
    with Cons.prems show ?thesis by simp
  next
    case (Visit p info err)
    show ?thesis
    proof (cases err)
      case (Some e)
      with Visit Cons.prems show ?thesis by simp
    next
      case None
      show ?thesis
      proof (cases "fi_regular info")
        case False
        with None Visit Cons.prems Cons.IH [of ents0 hl0] show ?thesis by simp
      next
        case True
        show ?thesis
        proof (cases "os_Open h p")
          case (Inl e)
          with True None Visit Cons.prems show ?thesis by simp
        next
          case (Inr content)
          then have opened: "os_Open h p = Inr (contents h p)"
            by (simp add: contents_def)
          show ?thesis
          proof (cases "linked h lp dp (p, info)")
            case l: True
            then have "upload_file h lp dp it = Link (relativePath lp p)"
              using True None Visit Inr by (simp add: linked_def Let_def)
            with Cons.prems Cons.IH [of ents0 "hl0 @ [relativePath lp p]"] l True Visit opened
            show ?thesis by simp
          next
            case l: False
            let ?name = "if relativePath lp p = [] then fi_Name info else relativePath lp p"
            show ?thesis
            proof (cases "fault h ''z.Write'' ?name")
              case (Some e)
              then have "upload_file h lp dp it = Stop e"
                using True None Visit Inr l by (auto simp add: linked_def Let_def)
              with Cons.prems show ?thesis by simp
            next
              case n: None
              then have "upload_file h lp dp it = Archive (entry_for h lp (p, info))"
                using True None Visit Inr l
                by (auto simp add: linked_def Let_def entry_for_def contents_def)
              with Cons.prems Cons.IH [of "ents0 @ [entry_for h lp (p, info)]" hl0] l True Visit
                opened
              show ?thesis by simp
            qed
          qed
        qed
      qed
    qed
  qed
qed

lemma producer_ok:
  assumes "p_ferr (producer h lp dp) = None"
  shows "walk_upload h lp dp (filepath_Walk h lp) [] [] =
           (p_data (producer h lp dp), p_hardlinks (producer h lp dp), None)"
  using assms
  by (auto simp: producer_def split: option.splits prod.splits)

lemma write_meta_Some:
  "write_meta h dp hl = (Some e, err) \<Longrightarrow>
   hl \<noteq> [] \<and> err = None \<and> entry_name e = MetaFileName \<and> tar_header e \<and>
   MarshalIndent h (metafile_of dp hl) = Inr (entry_body e)"
  by (auto simp: write_meta_def split: if_splits sum.splits option.splits)

lemma producer_meta:
  assumes "p_meta (producer h lp dp) = Some e"
  shows "write_meta h dp (p_hardlinks (producer h lp dp)) = (Some e, p_ferr (producer h lp dp))"
  using assms
  by (auto simp: producer_def split: option.splits prod.splits)

lemma close_pipe: "close_error (pipe_body h lp dp) = None"
  by (simp add: pipe_body_def CloseWithError_def Let_def)

lemma entries_pipe: "entries (pipe_body h lp dp) = written (producer h lp dp)"
  by (simp add: pipe_body_def CloseWithError_def Let_def)

text \<open>
  C4. Hardlinks are found by identity, not by content. When the goroutine of
  \<open>CompressedStreamUpload\<close> ends without an error, the hardlink list holds, in the order
  of the walk, the relative paths of exactly those regular files for which
  \<open>diffFromPath\<close> is set, \<open>os.Stat\<close> of the same relative path under \<open>diffFromPath\<close>
  succeeds, and \<open>os.SameFile\<close> holds (equal device and inode); every other regular
  file is written to the archive under its relative path with all the bytes read from
  it, whatever the bytes of the file under \<open>diffFromPath\<close> are.
\<close>

theorem hardlinks_by_identity:
  assumes "p_ferr (producer h localPath diffFromPath) = None"
  shows
    "p_hardlinks (producer h localPath diffFromPath) =
       map (\<lambda>x. relativePath localPath (fst x))
         (filter (linked h localPath diffFromPath) (regular_files (filepath_Walk h localPath))) \<and>
     p_data (producer h localPath diffFromPath) =
       map (entry_for h localPath)
         (filter (\<lambda>x. \<not> linked h localPath diffFromPath x)
            (regular_files (filepath_Walk h localPath))) \<and>
     list_all (\<lambda>x. os_Open h (fst x) = Inr (entry_body (entry_for h localPath x)))
       (regular_files (filepath_Walk h localPath)) \<and>
     (\<forall>x. linked h localPath diffFromPath x \<longleftrightarrow>
        diffFromPath \<noteq> [] \<and>
        (\<exists>d. os_Stat h (Join [diffFromPath, relativePath localPath (fst x)]) = Inr d \<and>
             fi_id d = fi_id (snd x)))"
proof -
  have id: "\<forall>x. linked h localPath diffFromPath x \<longleftrightarrow>
        diffFromPath \<noteq> [] \<and>
        (\<exists>d. os_Stat h (Join [diffFromPath, relativePath localPath (fst x)]) = Inr d \<and>
             fi_id d = fi_id (snd x))"
    by (auto simp: linked_def same_in_diff_def SameFile_def split: sum.splits)
  note w = walk_upload_acc [OF producer_ok [OF assms]]
  have hl: "p_hardlinks (producer h localPath diffFromPath) =
       map (\<lambda>x. relativePath localPath (fst x))
         (filter (linked h localPath diffFromPath) (regular_files (filepath_Walk h localPath)))"
    using w by simp
  have ents: "p_data (producer h localPath diffFromPath) =
       map (entry_for h localPath)
         (filter (\<lambda>x. \<not> linked h localPath diffFromPath x)
            (regular_files (filepath_Walk h localPath)))"
    using w by simp
  have full: "list_all (\<lambda>x. os_Open h (fst x) = Inr (entry_body (entry_for h localPath x)))
       (regular_files (filepath_Walk h localPath))"
    using w by (simp add: entry_for_def)
  from hl ents full id show ?thesis by (intro conjI)
qed

theorem hardlinks_by_identity_witness:
  "p_ferr (producer diff_host ''/data/new'' ''/data/old'') = None \<and>
   p_hardlinks (producer diff_host ''/data/new'' ''/data/old'') = [''a.bin''] \<and>
   p_data (producer diff_host ''/data/new'' ''/data/old'') =
     [\<lparr>entry_name = ''b.bin'', entry_body = ''BBB'', tar_header = True\<rparr>,
      \<lparr>entry_name = ''c.bin'', entry_body = ''CCC'', tar_header = True\<rparr>] \<and>
   regular_files (filepath_Walk diff_host ''/data/new'') =
     [(''/data/new/a.bin'', file_info ''a.bin'' 3 11),
      (''/data/new/b.bin'', file_info ''b.bin'' 3 12),
      (''/data/new/c.bin'', file_info ''c.bin'' 3 13)] \<and>
   linked diff_host ''/data/new'' ''/data/old'' (''/data/new/a.bin'', file_info ''a.bin'' 3 11) \<and>
   \<not> linked diff_host ''/data/new'' ''/data/old'' (''/data/new/b.bin'', file_info ''b.bin'' 3 12) \<and>
   \<not> linked diff_host ''/data/new'' ''/data/old'' (''/data/new/c.bin'', file_info ''c.bin'' 3 13)"
proof -
  have ok: "p_ferr (producer diff_host ''/data/new'' ''/data/old'') = None"
    by code_simp
  have files: "regular_files (filepath_Walk diff_host ''/data/new'') =
     [(''/data/new/a.bin'', file_info ''a.bin'' 3 11),
      (''/data/new/b.bin'', file_info ''b.bin'' 3 12),
      (''/data/new/c.bin'', file_info ''c.bin'' 3 13)]"
    by code_simp
  have a: "linked diff_host ''/data/new'' ''/data/old'' (''/data/new/a.bin'', file_info ''a.bin'' 3 11)"
    by code_simp
  have b: "\<not> linked diff_host ''/data/new'' ''/data/old'' (''/data/new/b.bin'', file_info ''b.bin'' 3 12)"
    by code_simp
  have c: "\<not> linked diff_host ''/data/new'' ''/data/old'' (''/data/new/c.bin'', file_info ''c.bin'' 3 13)"
    by code_simp
  have rel: "relativePath ''/data/new'' ''/data/new/a.bin'' = ''a.bin''"
    by code_simp
  have eb: "entry_for diff_host ''/data/new'' (''/data/new/b.bin'', file_info ''b.bin'' 3 12) =
      \<lparr>entry_name = ''b.bin'', entry_body = ''BBB'', tar_header = True\<rparr>"
    by code_simp
  have ec: "entry_for diff_host ''/data/new'' (''/data/new/c.bin'', file_info ''c.bin'' 3 13) =
      \<lparr>entry_name = ''c.bin'', entry_body = ''CCC'', tar_header = True\<rparr>"
    by code_simp
  note t = hardlinks_by_identity [OF ok]
  have hl: "p_hardlinks (producer diff_host ''/data/new'' ''/data/old'') = [''a.bin'']"
    using t [THEN conjunct1] unfolding files by (simp add: a b c rel)
  have d: "p_data (producer diff_host ''/data/new'' ''/data/old'') =
     [\<lparr>entry_name = ''b.bin'', entry_body = ''BBB'', tar_header = True\<rparr>,
      \<lparr>entry_name = ''c.bin'', entry_body = ''CCC'', tar_header = True\<rparr>]"
    using t [THEN conjunct2, THEN conjunct1] unfolding files by (simp add: a b c eb ec)
  from ok hl d files a b c show ?thesis by (intro conjI)
qed

text \<open>
  C5. Every \<open>MetaFile\<close> that \<open>CompressedStreamUpload\<close> adds to an archive has a hardlink
  list that is not empty and a \<open>RequiredBackup\<close> that is not empty, the base name of
  \<open>diffFromPath\<close>; it is added only when a hardlink was recorded, under the name
  \<open>meta.json\<close>, after every data entry: it is the last entry of the archive.
\<close>

theorem metafile_nonempty_and_last:
  assumes "p_meta (producer h localPath diffFromPath) = Some e"
  shows
    "p_hardlinks (producer h localPath diffFromPath) \<noteq> [] \<and>
     Hardlinks (metafile_of diffFromPath (p_hardlinks (producer h localPath diffFromPath))) =
       p_hardlinks (producer h localPath diffFromPath) \<and>
     RequiredBackup (metafile_of diffFromPath (p_hardlinks (producer h localPath diffFromPath))) =
       Base diffFromPath \<and>
     Base diffFromPath \<noteq> [] \<and>
     MarshalIndent h (metafile_of diffFromPath (p_hardlinks (producer h localPath diffFromPath))) =
       Inr (entry_body e) \<and>
     entry_name e = MetaFileName \<and>
     entries (pipe_body h localPath diffFromPath) =
       p_data (producer h localPath diffFromPath) @ [e] \<and>
     last (entries (pipe_body h localPath diffFromPath)) = e"
  using write_meta_Some [OF producer_meta [OF assms]] assms
  by (simp add: entries_pipe written_def metafile_of_def Base_not_Nil)

theorem metafile_nonempty_and_last_witness:
  "p_meta (producer diff_host ''/data/new'' ''/data/old'') =
     Some \<lparr>entry_name = ''meta.json'', entry_body = ''old a.bin'', tar_header = True\<rparr> \<and>
   p_hardlinks (producer diff_host ''/data/new'' ''/data/old'') = [''a.bin''] \<and>
   Base ''/data/old'' = ''old'' \<and>
   entries (pipe_body diff_host ''/data/new'' ''/data/old'') =
     [\<lparr>entry_name = ''b.bin'', entry_body = ''BBB'', tar_header = True\<rparr>,
      \<lparr>entry_name = ''c.bin'', entry_body = ''CCC'', tar_header = True\<rparr>,
      \<lparr>entry_name = ''meta.json'', entry_body = ''old a.bin'', tar_header = True\<rparr>]"
proof -
  have m: "p_meta (producer diff_host ''/data/new'' ''/data/old'') =
     Some \<lparr>entry_name = ''meta.json'', entry_body = ''old a.bin'', tar_header = True\<rparr>"
    by code_simp
  have hl: "p_hardlinks (producer diff_host ''/data/new'' ''/data/old'') = [''a.bin'']"
    by code_simp
  have d: "p_data (producer diff_host ''/data/new'' ''/data/old'') =
     [\<lparr>entry_name = ''b.bin'', entry_body = ''BBB'', tar_header = True\<rparr>,
      \<lparr>entry_name = ''c.bin'', entry_body = ''CCC'', tar_header = True\<rparr>]"
    by code_simp
  have b: "Base ''/data/old'' = ''old''"
    by code_simp
  show ?thesis
    using metafile_nonempty_and_last [OF m] m hl b
    by (simp add: d)
qed

lemma CompressedStreamUpload_proceeds:
  "upload_checks bd h lp rp dp s = None \<Longrightarrow>
   CompressedStreamUpload bd h lp rp dp s =
     (case PutFile (storage bd) s (archiveName bd h rp) (pipe_body h lp dp) of
        (s', Some e) \<Rightarrow> (s', Returned (Some e))
      | (s', None) \<Rightarrow> (s', Returned None))"
  by (simp add: CompressedStreamUpload_def)

lemma close_files_pipe: "close_error (files_pipe_body h baseLocalPath fnames) = None"
  by (simp add: files_pipe_body_def CloseWithError_def Let_def)

lemma mem_PutFile_clean:
  "close_error body = None \<Longrightarrow> snd (mem_PutFile s key body) = None"
  by (simp add: mem_PutFile_def)

text \<open>
  C2. An error of the archiving goroutine is to reach the reading end of the pipe, so
  that \<open>PutFile\<close> fails and the upload does not return success. The pipe is closed with
  the value \<open>ferr\<close> had when \<open>defer w.CloseWithError(ferr)\<close> ran, which is nil: whenever
  the upload gets as far as the pipe and the goroutine ends with an error, the reading
  end sees the entries written so far and a clean end of stream, and on a backend that
  stores what it reads \<open>CompressedStreamUpload\<close> returns nil. The version of
  \<open>general.go\<close> closes its pipe in the same way, with the same result.
\<close>

theorem producer_error_not_forwarded:
  assumes "upload_checks (mem_destination p fmt) h localPath remotePath diffFromPath s = None"
    and "p_ferr (producer h localPath diffFromPath) = Some e"
  shows
    "close_error (pipe_body h localPath diffFromPath) = None \<and>
     entries (pipe_body h localPath diffFromPath) = written (producer h localPath diffFromPath) \<and>
     snd (CompressedStreamUpload (mem_destination p fmt) h localPath remotePath diffFromPath s) =
       Returned None \<and>
     close_error (files_pipe_body h baseLocalPath fnames) = None \<and>
     (\<forall>e'. files_checks (mem_destination p fmt) h baseLocalPath fnames remoteKey s = None \<and>
           snd (files_producer h baseLocalPath fnames) = Some e' \<longrightarrow>
        snd (CompressedStreamUpload_files (mem_destination p fmt) h baseLocalPath fnames
               remoteKey s) = None)"
proof -
  have put: "snd (PutFile (storage (mem_destination p fmt)) s
                (archiveName (mem_destination p fmt) h remotePath)
                (pipe_body h localPath diffFromPath)) = None"
    by (simp add: mem_destination_def mem_storage_def mem_PutFile_clean close_pipe)
  have "snd (CompressedStreamUpload (mem_destination p fmt) h localPath remotePath diffFromPath s) =
       Returned None"
    unfolding CompressedStreamUpload_proceeds [OF assms(1)]
    using put by (auto split: prod.splits option.splits)
  moreover have "close_error (files_pipe_body h baseLocalPath fnames) = None"
    by (rule close_files_pipe)
  moreover have "\<forall>e'. files_checks (mem_destination p fmt) h baseLocalPath fnames remoteKey s = None \<and>
           snd (files_producer h baseLocalPath fnames) = Some e' \<longrightarrow>
        snd (CompressedStreamUpload_files (mem_destination p fmt) h baseLocalPath fnames
               remoteKey s) = None"
    by (simp add: CompressedStreamUpload_files_def mem_destination_def mem_storage_def
        mem_PutFile_clean close_files_pipe)
  ultimately show ?thesis
    by (simp add: close_pipe entries_pipe)
qed

theorem producer_error_not_forwarded_witness:
  "upload_checks (mem_destination ''backups'' ''tar'')
     (diff_host\<lparr>os_Open := (\<lambda>p. Inl (Err ''permission denied''))\<rparr>)
     ''/data/new'' ''bk'' [] (holding []) = None \<and>
   p_ferr (producer (diff_host\<lparr>os_Open := (\<lambda>p. Inl (Err ''permission denied''))\<rparr>)
     ''/data/new'' []) = Some (Err ''permission denied'') \<and>
   CompressedStreamUpload (mem_destination ''backups'' ''tar'')
     (diff_host\<lparr>os_Open := (\<lambda>p. Inl (Err ''permission denied''))\<rparr>)
     ''/data/new'' ''bk'' [] (holding []) =
     (\<lparr>objects = [(\<lparr>rf_Name = ''backups/bk.tar'', rf_Size = 0, rf_LastModified = 0\<rparr>,
                    \<lparr>entries = [], close_error = None\<rparr>)], clock = 0\<rparr>,
      Returned None) \<and>
   files_checks (mem_destination ''backups'' ''tar'')
     (diff_host\<lparr>os_Open := (\<lambda>p. Inl (Err ''permission denied''))\<rparr>)
     ''/data/old'' [''a.bin''] ''backups/bk.tar'' (holding []) = None \<and>
   snd (files_producer (diff_host\<lparr>os_Open := (\<lambda>p. Inl (Err ''permission denied''))\<rparr>)
     ''/data/old'' [''a.bin'']) = Some (Err ''permission denied'') \<and>
   snd (CompressedStreamUpload_files (mem_destination ''backups'' ''tar'')
     (diff_host\<lparr>os_Open := (\<lambda>p. Inl (Err ''permission denied''))\<rparr>)
     ''/data/old'' [''a.bin''] ''backups/bk.tar'' (holding [])) = None"
proof -
  have c: "upload_checks (mem_destination ''backups'' ''tar'')
     (diff_host\<lparr>os_Open := (\<lambda>p. Inl (Err ''permission denied''))\<rparr>)
     ''/data/new'' ''bk'' [] (holding []) = None"
    by code_simp
  have f: "p_ferr (producer (diff_host\<lparr>os_Open := (\<lambda>p. Inl (Err ''permission denied''))\<rparr>)
     ''/data/new'' []) = Some (Err ''permission denied'')"
    by code_simp
  have s: "fst (CompressedStreamUpload (mem_destination ''backups'' ''tar'')
     (diff_host\<lparr>os_Open := (\<lambda>p. Inl (Err ''permission denied''))\<rparr>)
     ''/data/new'' ''bk'' [] (holding [])) =
     \<lparr>objects = [(\<lparr>rf_Name = ''backups/bk.tar'', rf_Size = 0, rf_LastModified = 0\<rparr>,
                    \<lparr>entries = [], close_error = None\<rparr>)], clock = 0\<rparr>"
    by code_simp
  have fc: "files_checks (mem_destination ''backups'' ''tar'')
     (diff_host\<lparr>os_Open := (\<lambda>p. Inl (Err ''permission denied''))\<rparr>)
     ''/data/old'' [''a.bin''] ''backups/bk.tar'' (holding []) = None"
    by code_simp
  have fp: "snd (files_producer (diff_host\<lparr>os_Open := (\<lambda>p. Inl (Err ''permission denied''))\<rparr>)
     ''/data/old'' [''a.bin'']) = Some (Err ''permission denied'')"
    by code_simp
  note t = producer_error_not_forwarded [OF c f, where baseLocalPath = "''/data/old''"
      and fnames = "[''a.bin'']" and remoteKey = "''backups/bk.tar''"]
  have r: "snd (CompressedStreamUpload (mem_destination ''backups'' ''tar'')
     (diff_host\<lparr>os_Open := (\<lambda>p. Inl (Err ''permission denied''))\<rparr>)
     ''/data/new'' ''bk'' [] (holding [])) = Returned None"
    using t by blast
  have u: "CompressedStreamUpload (mem_destination ''backups'' ''tar'')
     (diff_host\<lparr>os_Open := (\<lambda>p. Inl (Err ''permission denied''))\<rparr>)
     ''/data/new'' ''bk'' [] (holding []) =
     (\<lparr>objects = [(\<lparr>rf_Name = ''backups/bk.tar'', rf_Size = 0, rf_LastModified = 0\<rparr>,
                    \<lparr>entries = [], close_error = None\<rparr>)], clock = 0\<rparr>,
      Returned None)"
    using r s by (simp add: prod_eq_iff)
  have fu: "snd (CompressedStreamUpload_files (mem_destination ''backups'' ''tar'')
     (diff_host\<lparr>os_Open := (\<lambda>p. Inl (Err ''permission denied''))\<rparr>)
     ''/data/old'' [''a.bin''] ''backups/bk.tar'' (holding [])) = None"
    using t fc fp by blast
  from c f u fc fp fu show ?thesis by (intro conjI)
qed

text \<open>
  C8, as stated: the upload goes on only when the probe reports that the object is
  absent, and fails when the object exists. The probe ends the function only when it
  returns an error other than \<open>ErrNotFound\<close>; when it finds the object it returns no
  error and the upload goes on and replaces the object.
\<close>

theorem upload_replaces_existing_object:
  "GetFile (storage (mem_destination ''backups'' ''tar''))
     (holding [remote_file ''backups/bk.tar'' 3 4])
     (archiveName (mem_destination ''backups'' ''tar'')
        (tree_host (\<lambda>fmt. fmt) ''/data/bk'' [(''a.bin'', Regular ''AAA'')]) ''bk'') =
     Inr (remote_file ''backups/bk.tar'' 3 4) \<and>
   upload_checks (mem_destination ''backups'' ''tar'')
     (tree_host (\<lambda>fmt. fmt) ''/data/bk'' [(''a.bin'', Regular ''AAA'')])
     ''/data/bk'' ''bk'' [] (holding [remote_file ''backups/bk.tar'' 3 4]) = None \<and>
   CompressedStreamUpload (mem_destination ''backups'' ''tar'')
     (tree_host (\<lambda>fmt. fmt) ''/data/bk'' [(''a.bin'', Regular ''AAA'')])
     ''/data/bk'' ''bk'' [] (holding [remote_file ''backups/bk.tar'' 3 4]) =
     (\<lparr>objects = [(\<lparr>rf_Name = ''backups/bk.tar'', rf_Size = 3, rf_LastModified = 0\<rparr>,
                    \<lparr>entries = [\<lparr>entry_name = ''a.bin'', entry_body = ''AAA'',
                                  tar_header = True\<rparr>],
                     close_error = None\<rparr>)], clock = 0\<rparr>,
      Returned None)"
proof -
  have "GetFile (storage (mem_destination ''backups'' ''tar''))
     (holding [remote_file ''backups/bk.tar'' 3 4])
     (archiveName (mem_destination ''backups'' ''tar'')
        (tree_host (\<lambda>fmt. fmt) ''/data/bk'' [(''a.bin'', Regular ''AAA'')]) ''bk'') =
     Inr (remote_file ''backups/bk.tar'' 3 4)"
    by code_simp
  moreover have "upload_checks (mem_destination ''backups'' ''tar'')
     (tree_host (\<lambda>fmt. fmt) ''/data/bk'' [(''a.bin'', Regular ''AAA'')])
     ''/data/bk'' ''bk'' [] (holding [remote_file ''backups/bk.tar'' 3 4]) = None"
    by code_simp
  moreover have "CompressedStreamUpload (mem_destination ''backups'' ''tar'')
     (tree_host (\<lambda>fmt. fmt) ''/data/bk'' [(''a.bin'', Regular ''AAA'')])
     ''/data/bk'' ''bk'' [] (holding [remote_file ''backups/bk.tar'' 3 4]) =
     (\<lparr>objects = [(\<lparr>rf_Name = ''backups/bk.tar'', rf_Size = 3, rf_LastModified = 0\<rparr>,
                    \<lparr>entries = [\<lparr>entry_name = ''a.bin'', entry_body = ''AAA'',
                                  tar_header = True\<rparr>],
                     close_error = None\<rparr>)], clock = 0\<rparr>,
      Returned None)"
    by code_simp
  ultimately show ?thesis by (intro conjI)
qed

text \<open>
  C8, amended: the probe of the target object passes exactly when it reports absence
  (\<open>ErrNotFound\<close>) or finds the object, and \<open>CompressedStreamUpload\<close> goes on to archive
  and upload exactly when the probe passes and the local checks do (no call of the
  first walk with a nil \<open>info\<close>, and \<open>diffFromPath\<close> empty or a directory): an object
  that already exists does not make the operation fail. If the probe fails with any
  other error, the function returns that error and nothing is uploaded. When it goes
  on, its result is that of \<open>PutFile\<close> on the pipe. The same holds of the version of
  \<open>general.go\<close>, which probes \<open>remotePath\<close> and whose local check is the \<open>os.Stat\<close> of
  every file.
\<close>

theorem upload_probe_gate:
  "(probe bd h remotePath s = None \<longleftrightarrow>
      GetFile (storage bd) s (archiveName bd h remotePath) = Inl ErrNotFound \<or>
      (\<exists>f. GetFile (storage bd) s (archiveName bd h remotePath) = Inr f)) \<and>
   (upload_checks bd h localPath remotePath diffFromPath s = None \<longleftrightarrow>
      (GetFile (storage bd) s (archiveName bd h remotePath) = Inl ErrNotFound \<or>
       (\<exists>f. GetFile (storage bd) s (archiveName bd h remotePath) = Inr f)) \<and>
      \<not> list_ex nil_info (filepath_Walk h localPath) \<and>
      (diffFromPath = [] \<or> (\<exists>fi. os_Stat h diffFromPath = Inr fi \<and> fi_dir fi))) \<and>
   (upload_checks bd h localPath remotePath diffFromPath s = None \<longrightarrow>
      CompressedStreamUpload bd h localPath remotePath diffFromPath s =
        (case PutFile (storage bd) s (archiveName bd h remotePath)
                (pipe_body h localPath diffFromPath) of
           (s', Some e) \<Rightarrow> (s', Returned (Some e))
         | (s', None) \<Rightarrow> (s', Returned None))) \<and>
   (\<forall>e. GetFile (storage bd) s (archiveName bd h remotePath) = Inl e \<and> e \<noteq> ErrNotFound \<longrightarrow>
      upload_checks bd h localPath remotePath diffFromPath s = Some (Returned (Some e)) \<and>
      CompressedStreamUpload bd h localPath remotePath diffFromPath s = (s, Returned (Some e))) \<and>
   (files_checks bd h baseLocalPath fnames remotePath s = None \<longleftrightarrow>
      (GetFile (storage bd) s remotePath = Inl ErrNotFound \<or>
       (\<exists>f. GetFile (storage bd) s remotePath = Inr f)) \<and>
      stat_all h baseLocalPath fnames = None) \<and>
   (files_checks bd h baseLocalPath fnames remotePath s = None \<longrightarrow>
      CompressedStreamUpload_files bd h baseLocalPath fnames remotePath s =
        PutFile (storage bd) s remotePath (files_pipe_body h baseLocalPath fnames)) \<and>
   (\<forall>e. GetFile (storage bd) s remotePath = Inl e \<and> e \<noteq> ErrNotFound \<longrightarrow>
      CompressedStreamUpload_files bd h baseLocalPath fnames remotePath s = (s, Some e))"
proof -
  have zero: "probe bd h remotePath s = None \<longleftrightarrow>
      GetFile (storage bd) s (archiveName bd h remotePath) = Inl ErrNotFound \<or>
      (\<exists>f. GetFile (storage bd) s (archiveName bd h remotePath) = Inr f)"
    by (cases "GetFile (storage bd) s (archiveName bd h remotePath)") (auto simp: probe_def)
  have one: "upload_checks bd h localPath remotePath diffFromPath s = None \<longleftrightarrow>
      (GetFile (storage bd) s (archiveName bd h remotePath) = Inl ErrNotFound \<or>
       (\<exists>f. GetFile (storage bd) s (archiveName bd h remotePath) = Inr f)) \<and>
      \<not> list_ex nil_info (filepath_Walk h localPath) \<and>
      (diffFromPath = [] \<or> (\<exists>fi. os_Stat h diffFromPath = Inr fi \<and> fi_dir fi))"
    unfolding zero [symmetric]
    by (cases "probe bd h remotePath s"; cases "os_Stat h diffFromPath")
       (auto simp: upload_checks_def)
  have two: "upload_checks bd h localPath remotePath diffFromPath s = None \<longrightarrow>
      CompressedStreamUpload bd h localPath remotePath diffFromPath s =
        (case PutFile (storage bd) s (archiveName bd h remotePath)
                (pipe_body h localPath diffFromPath) of
           (s', Some e) \<Rightarrow> (s', Returned (Some e))
         | (s', None) \<Rightarrow> (s', Returned None))"
    by (simp add: CompressedStreamUpload_proceeds)
  have three: "\<forall>e. GetFile (storage bd) s (archiveName bd h remotePath) = Inl e \<and> e \<noteq> ErrNotFound \<longrightarrow>
      upload_checks bd h localPath remotePath diffFromPath s = Some (Returned (Some e)) \<and>
      CompressedStreamUpload bd h localPath remotePath diffFromPath s = (s, Returned (Some e))"
    by (simp add: CompressedStreamUpload_def upload_checks_def probe_def)
  have four: "files_checks bd h baseLocalPath fnames remotePath s = None \<longleftrightarrow>
      (GetFile (storage bd) s remotePath = Inl ErrNotFound \<or>
       (\<exists>f. GetFile (storage bd) s remotePath = Inr f)) \<and>
      stat_all h baseLocalPath fnames = None"
    by (cases "GetFile (storage bd) s remotePath") (auto simp: files_checks_def)
  have five: "files_checks bd h baseLocalPath fnames remotePath s = None \<longrightarrow>
      CompressedStreamUpload_files bd h baseLocalPath fnames remotePath s =
        PutFile (storage bd) s remotePath (files_pipe_body h baseLocalPath fnames)"
    by (simp add: CompressedStreamUpload_files_def)
  have six: "\<forall>e. GetFile (storage bd) s remotePath = Inl e \<and> e \<noteq> ErrNotFound \<longrightarrow>
      CompressedStreamUpload_files bd h baseLocalPath fnames remotePath s = (s, Some e)"
    by (simp add: files_checks_def CompressedStreamUpload_files_def)
  from zero one two three four five six show ?thesis by (intro conjI)
qed

theorem upload_probe_gate_witness:
  "GetFile (storage (failing_probe (Err ''timeout'') ''backups''))
     (holding [])
     (archiveName (failing_probe (Err ''timeout'') ''backups'')
        (tree_host (\<lambda>fmt. fmt) ''/data/bk'' [(''a.bin'', Regular ''AAA'')]) ''bk'') =
     Inl (Err ''timeout'') \<and>
   CompressedStreamUpload (failing_probe (Err ''timeout'') ''backups'')
     (tree_host (\<lambda>fmt. fmt) ''/data/bk'' [(''a.bin'', Regular ''AAA'')])
     ''/data/bk'' ''bk'' [] (holding []) = (holding [], Returned (Some (Err ''timeout''))) \<and>
   GetFile (storage (mem_destination ''backups'' ''tar''))
     (holding [remote_file ''backups/bk.tar'' 3 4])
     (archiveName (mem_destination ''backups'' ''tar'')
        (tree_host (\<lambda>fmt. fmt) ''/data/bk'' [(''a.bin'', Regular ''AAA'')]) ''bk'') =
     Inr (remote_file ''backups/bk.tar'' 3 4) \<and>
   \<not> list_ex nil_info
     (filepath_Walk (tree_host (\<lambda>fmt. fmt) ''/data/bk'' [(''a.bin'', Regular ''AAA'')]) ''/data/bk'') \<and>
   upload_checks (mem_destination ''backups'' ''tar'')
     (tree_host (\<lambda>fmt. fmt) ''/data/bk'' [(''a.bin'', Regular ''AAA'')])
     ''/data/bk'' ''bk'' [] (holding [remote_file ''backups/bk.tar'' 3 4]) = None \<and>
   CompressedStreamUpload (mem_destination ''backups'' ''tar'')
     (tree_host (\<lambda>fmt. fmt) ''/data/bk'' [(''a.bin'', Regular ''AAA'')])
     ''/data/bk'' ''bk'' [] (holding [remote_file ''backups/bk.tar'' 3 4]) =
     (case PutFile (storage (mem_destination ''backups'' ''tar''))
             (holding [remote_file ''backups/bk.tar'' 3 4])
             (archiveName (mem_destination ''backups'' ''tar'')
                (tree_host (\<lambda>fmt. fmt) ''/data/bk'' [(''a.bin'', Regular ''AAA'')]) ''bk'')
             (pipe_body (tree_host (\<lambda>fmt. fmt) ''/data/bk'' [(''a.bin'', Regular ''AAA'')])
                ''/data/bk'' []) of
        (s', Some e) \<Rightarrow> (s', Returned (Some e))
      | (s', None) \<Rightarrow> (s', Returned None)) \<and>
   GetFile (storage (mem_destination ''backups'' ''tar'')) (holding [])
     (archiveName (mem_destination ''backups'' ''tar'')
        (tree_host (\<lambda>fmt. fmt) ''/data/bk'' [(''a.bin'', Regular ''AAA'')]) ''bk'') = Inl ErrNotFound \<and>
   upload_checks (mem_destination ''backups'' ''tar'')
     (tree_host (\<lambda>fmt. fmt) ''/data/bk'' [(''a.bin'', Regular ''AAA'')])
     ''/data/bk'' ''bk'' [] (holding []) = None"
proof -
  let ?h = "tree_host (\<lambda>fmt. fmt) ''/data/bk'' [(''a.bin'', Regular ''AAA'')]"
  let ?bd = "mem_destination ''backups'' ''tar''"
  let ?s = "holding [remote_file ''backups/bk.tar'' 3 4]"
  have g: "GetFile (storage (failing_probe (Err ''timeout'') ''backups''))
     (holding [])
     (archiveName (failing_probe (Err ''timeout'') ''backups'') ?h ''bk'') = Inl (Err ''timeout'')"
    by (simp add: failing_probe_def)
  have e: "CompressedStreamUpload (failing_probe (Err ''timeout'') ''backups'') ?h
     ''/data/bk'' ''bk'' [] (holding []) = (holding [], Returned (Some (Err ''timeout'')))"
    using upload_probe_gate [where bd = "failing_probe (Err ''timeout'') ''backups''"
        and h = ?h and localPath = "''/data/bk''" and remotePath = "''bk''"
        and diffFromPath = "[]" and s = "holding []"] g
    by blast
  have f: "GetFile (storage ?bd) ?s (archiveName ?bd ?h ''bk'') =
     Inr (remote_file ''backups/bk.tar'' 3 4)"
    by code_simp
  have w: "\<not> list_ex nil_info (filepath_Walk ?h ''/data/bk'')"
    by code_simp
  note gate = upload_probe_gate [where bd = ?bd and h = ?h and localPath = "''/data/bk''"
        and remotePath = "''bk''" and diffFromPath = "[]" and s = ?s]
  have c: "upload_checks ?bd ?h ''/data/bk'' ''bk'' [] ?s = None"
    using gate f w by blast
  have u: "CompressedStreamUpload ?bd ?h ''/data/bk'' ''bk'' [] ?s =
     (case PutFile (storage ?bd) ?s (archiveName ?bd ?h ''bk'') (pipe_body ?h ''/data/bk'' []) of
        (s', Some e) \<Rightarrow> (s', Returned (Some e))
      | (s', None) \<Rightarrow> (s', Returned None))"
    using gate c by blast
  have a: "GetFile (storage ?bd) (holding []) (archiveName ?bd ?h ''bk'') = Inl ErrNotFound"
    by code_simp
  have n: "upload_checks ?bd ?h ''/data/bk'' ''bk'' [] (holding []) = None"
    using upload_probe_gate [where bd = ?bd and h = ?h and localPath = "''/data/bk''"
        and remotePath = "''bk''" and diffFromPath = "[]" and s = "holding []"] a w
    by blast
  from g e f w c u a n show ?thesis by (intro conjI)
qed

section \<open>Properties of the round trip\<close>





































text \<open>
  Outside these roots the transfer differs. From the root \<open>./bk\<close> the walk hands over
  \<open>bk/a.bin\<close>, from which the prefix \<open>./bk\<close> is not trimmed: the entry is named
  \<open>bk/a.bin\<close>. From the root \<open>.\<close> the file \<open>.profile\<close> is handed over as \<open>.profile\<close> and
  loses its dot. The upload from the empty root panics, and the download into the
  empty local root returns the error of \<open>os.MkdirAll\<close>.
\<close>

lemma upload_from_other_roots:
  "entries (pipe_body (tree_host (\<lambda>fmt. fmt) ''./bk'' [(''a.bin'', Regular ''AAA'')]) ''./bk'' []) =
     [\<lparr>entry_name = ''bk/a.bin'', entry_body = ''AAA'', tar_header = True\<rparr>] \<and>
   entries (pipe_body (tree_host (\<lambda>fmt. fmt) ''.'' [(''.profile'', Regular ''AAA'')]) ''.'' []) =
     [\<lparr>entry_name = ''profile'', entry_body = ''AAA'', tar_header = True\<rparr>] \<and>
   CompressedStreamUpload (mem_destination ''backups'' ''tar'')
     (tree_host (\<lambda>fmt. fmt) [] [(''a.bin'', Regular ''AAA'')]) [] ''bk'' [] (holding []) =
     (holding [], Panicked) \<and>
   CompressedStreamDownload (Suc 0) (mem_destination ''backups'' ''tar'')
     (tree_host (\<lambda>fmt. fmt) ''/restore'' []) (holding []) ''bk'' [] Map.empty =
     Some (Map.empty, Some ErrNotExist)"
proof -
  have "entries (pipe_body (tree_host (\<lambda>fmt. fmt) ''./bk'' [(''a.bin'', Regular ''AAA'')]) ''./bk'' []) =
     [\<lparr>entry_name = ''bk/a.bin'', entry_body = ''AAA'', tar_header = True\<rparr>]"
    by code_simp
  moreover have
    "entries (pipe_body (tree_host (\<lambda>fmt. fmt) ''.'' [(''.profile'', Regular ''AAA'')]) ''.'' []) =
     [\<lparr>entry_name = ''profile'', entry_body = ''AAA'', tar_header = True\<rparr>]"
    by code_simp
  moreover have "CompressedStreamUpload (mem_destination ''backups'' ''tar'')
     (tree_host (\<lambda>fmt. fmt) [] [(''a.bin'', Regular ''AAA'')]) [] ''bk'' [] (holding []) =
     (holding [], Panicked)"
    by code_simp
  moreover have "CompressedStreamDownload (Suc 0) (mem_destination ''backups'' ''tar'')
     (tree_host (\<lambda>fmt. fmt) ''/restore'' []) (holding []) ''bk'' [] Map.empty =
     Some (Map.empty, Some ErrNotExist)"
    by (simp add: os_MkdirAll_def no_path_def path_error_def)
  ultimately show ?thesis by (intro conjI)
qed

section \<open>The catalog on names without an archive suffix\<close>

lemma range_order_set: "range_order rng \<Longrightarrow> set (rng fs) = set fs"
  unfolding range_order_def by (metis mset_eq_setD)

lemma listed_catalog:
  assumes "range_order rng"
  shows "listed n (catalog rng p ws) \<longleftrightarrow> (\<exists>e. (n, e) \<in> set (walk_files p ws) \<and> is_backup e)"
  by (force simp: listed_def list_ex_iff catalog_def SliceStable_def collect_def
      range_order_set [OF assms])

lemma walk_files_snoc: "walk_files p (ws @ [w]) = visit p w (walk_files p ws)"
  by (simp add: walk_files_def)

lemma distinct_visit: "distinct (map fst fs) \<Longrightarrow> distinct (map fst (visit p w fs))"
  by (auto simp: visit_def tar_branch_def marker_branch_def Let_def distinct_update
      split: list.splits)

lemma distinct_walk_files: "distinct (map fst (walk_files p ws))"
proof (induction ws rule: rev_induct)
  case Nil
  then show ?case by (simp add: walk_files_def)
next
  case (snoc w ws)
  then show ?case by (simp add: walk_files_snoc distinct_visit)
qed

lemma is_backup_lookup:
  "distinct (map fst fs) \<Longrightarrow> (\<exists>e. (n, e) \<in> set fs \<and> is_backup e) \<longleftrightarrow> is_backup (lookup fs n)"
proof (cases "map_of fs n")
  case None
  assume "distinct (map fst fs)"
  have "n \<notin> fst ` set fs" using None by (simp add: map_of_eq_None_iff)
  then have "\<not> (\<exists>e. (n, e) \<in> set fs \<and> is_backup e)" by force
  then show ?thesis using None by (simp add: lookup_def is_backup_def zero_backup_def)
next
  case (Some b)
  assume d: "distinct (map fst fs)"
  have "\<And>e. (n, e) \<in> set fs \<longleftrightarrow> map_of fs n = Some e"
    using map_of_eq_Some_iff [OF d, of n] by blast
  then have "\<And>e. (n, e) \<in> set fs \<longleftrightarrow> e = b"
    unfolding Some by auto
  then show ?thesis using Some by (simp add: lookup_def)
qed

lemma ex_Cons_pair:
  "(\<exists>e. (n, e) \<in> set ((k, v) # fs) \<and> P e) \<longleftrightarrow>
     (n = k \<and> P v) \<or> (\<exists>e. (n, e) \<in> set fs \<and> P e)"
  by auto

lemma lookup_update_other: "k \<noteq> n \<Longrightarrow> lookup (AList.update k v fs) n = lookup fs n"
  by (simp add: lookup_def update_conv')

lemma marker_seen_snoc:
  "marker_seen p n m (ws @ [w]) \<longleftrightarrow> marker_seen p n m ws \<or> shows_marker p n m w"
  by (simp add: marker_seen_def shows_marker_def)

lemma lookup_visit_plain:
  assumes "\<not> archive_suffix n"
  shows "lookup (visit p w fs) n =
     (lookup fs n)\<lparr>Metadata := Metadata (lookup fs n) \<or> shows_marker p n ''metadata'' w,
                   Shadow := Shadow (lookup fs n) \<or> shows_marker p n ''shadow'' w,
                   Tar := (if HasPrefix (rf_Name w) p \<and> length (key_parts p (rf_Name w)) > 1 \<and>
                              hd (key_parts p (rf_Name w)) = n
                           then False else Tar (lookup fs n))\<rparr>"
proof (cases "HasPrefix (rf_Name w) p")
  case False
  then show ?thesis by (simp add: visit_def shows_marker_def)
next
  case True
  obtain p0 rest where parts: "key_parts p (rf_Name w) = p0 # rest"
    using Split_not_Nil by (cases "key_parts p (rf_Name w)") (auto simp: key_parts_def)
  have ne: "archive_suffix p0 \<Longrightarrow> p0 \<noteq> n"
    using assms by auto
  show ?thesis
  proof (cases rest)
    case Nil
    show ?thesis
      using True parts Nil ne
      by (auto simp: visit_def shows_marker_def tar_branch_def marker_branch_def
          lookup_update_other)
  next
    case (Cons p1 rest')
    show ?thesis
    proof (cases "p0 = n")
      case same: True
      then show ?thesis
        using True parts Cons assms
        by (simp add: visit_def shows_marker_def tar_branch_def marker_branch_def Let_def
            lookup_update)
    next
      case other: False
      then show ?thesis
        using True parts Cons ne
        by (auto simp: visit_def shows_marker_def tar_branch_def marker_branch_def Let_def
            lookup_update_other)
    qed
  qed
qed

lemma lookup_walk_plain:
  assumes "\<not> archive_suffix n"
  shows "lookup (walk_files p ws) n =
     \<lparr>Metadata = marker_seen p n ''metadata'' ws, Shadow = marker_seen p n ''shadow'' ws,
      Tar = False, cb_Size = 0, cb_Date = 0\<rparr>"
proof (induction ws rule: rev_induct)
  case Nil
  then show ?case
    by (simp add: walk_files_def lookup_def zero_backup_def marker_seen_def)
next
  case (snoc w ws)
  show ?case
    unfolding walk_files_snoc lookup_visit_plain [OF assms] snoc.IH
    by (simp add: marker_seen_snoc)
qed

text \<open>
  For a name without an archive suffix the catalog is as specified: with any order of
  the walk and of \<open>range\<close>, the name is listed exactly when its metadata marker and its
  shadow marker were both observed.
\<close>

lemma catalog_plain_names:
  assumes "range_order rng" and "\<not> archive_suffix n"
  shows "listed n (catalog rng p ws) \<longleftrightarrow>
     marker_seen p n ''metadata'' ws \<and> marker_seen p n ''shadow'' ws"
  unfolding listed_catalog [OF assms(1)] is_backup_lookup [OF distinct_walk_files]
    lookup_walk_plain [OF assms(2)]
  by (simp add: is_backup_def)

text \<open>
  The scenario of the specification: of \<open>bk1.tar\<close>, \<open>bk2/metadata/x\<close>, \<open>bk2/shadow/y\<close>
  and \<open>bk3/metadata/x\<close> under the empty path, the catalog lists \<open>bk1.tar\<close> and \<open>bk2\<close>
  and nothing else.
\<close>

lemma catalog_scenario:
  assumes "range_order rng"
  shows "listed n (catalog rng []
      [remote_file ''bk1.tar'' s1 d1, remote_file ''bk2/metadata/x'' s2 d2,
       remote_file ''bk2/shadow/y'' s3 d3, remote_file ''bk3/metadata/x'' s4 d4]) \<longleftrightarrow>
     n = ''bk1.tar'' \<or> n = ''bk2''"
proof -
  have w: "walk_files []
      [remote_file ''bk1.tar'' s1 d1, remote_file ''bk2/metadata/x'' s2 d2,
       remote_file ''bk2/shadow/y'' s3 d3, remote_file ''bk3/metadata/x'' s4 d4] =
     [(''bk1.tar'', \<lparr>Metadata = False, Shadow = False, Tar = True, cb_Size = s1, cb_Date = d1\<rparr>),
      (''bk2'', \<lparr>Metadata = True, Shadow = True, Tar = False, cb_Size = 0, cb_Date = 0\<rparr>),
      (''bk3'', \<lparr>Metadata = True, Shadow = False, Tar = False, cb_Size = 0, cb_Date = 0\<rparr>)]"
    by code_simp
  show ?thesis
    unfolding listed_catalog [OF assms] w ex_Cons_pair
    by (simp add: is_backup_def)
qed

end
